theory Spec2Isabelle
  imports Complex_Main
begin

section \<open>Python text and numbers\<close>

text \<open>
  A Python \<open>str\<close> is a sequence of Unicode code points, so a string is a list of
  naturals and \<open>length\<close> is Python's \<open>len\<close>. ASCII literals are written
  \<open>str ''...''\<close>.
\<close>

type_synonym pystr = "nat list"

definition str :: "string \<Rightarrow> pystr" where
  "str s = map of_char s"

datatype py_error = ValueError | IndexError | OverflowError

text \<open>
  A number read from a quantity cell is a Python \<open>int\<close> or a Python \<open>float\<close>.
  The float type \<open>'f\<close> and its arithmetic are taken from the interpreter; a float
  literal is kept as the exact decimal it denotes (sign, digits, power of ten).
\<close>

datatype 'f pynum = PInt int | PFloat 'f

datatype float_lit = FInf bool | FNan bool | FDec bool nat int

text \<open>
  What the interpreter supplies and the repository does not define: the Unicode tables
  beyond ASCII (decimal digit values, the alphabetic property, case mappings, NFKC),
  the limit on the length of a decimal integer string (0 switches it off; it is only
  looked at for more than 640 digits) and binary floating point. On ASCII every function below is fixed by its definition and never
  consults these fields.
\<close>

record 'f pylib =
  u_decimal :: "nat \<Rightarrow> nat option"
  u_isalpha :: "nat \<Rightarrow> bool"
  u_lower :: "pystr \<Rightarrow> nat \<Rightarrow> pystr"
  u_upper :: "nat \<Rightarrow> pystr"
  nfkc :: "pystr \<Rightarrow> pystr"
  max_str_digits :: nat
  f_of_literal :: "float_lit \<Rightarrow> 'f"
  f_of_int :: "int \<Rightarrow> 'f option"
  f_add :: "'f \<Rightarrow> 'f \<Rightarrow> 'f"
  f_is_zero :: "'f \<Rightarrow> bool"

subsection \<open>Character classes\<close>

text \<open>\<open>str.isspace\<close> of one code point, which is also what \<open>strip()\<close>, \<open>split()\<close>
  and the regular expression class \<open>\s\<close> use.\<close>

definition py_isspace :: "nat \<Rightarrow> bool" where
  "py_isspace c =
     ((9 \<le> c \<and> c \<le> 13) \<or> (28 \<le> c \<and> c \<le> 32) \<or> c = 133 \<or> c = 160 \<or> c = 5760 \<or>
      (8192 \<le> c \<and> c \<le> 8202) \<or> c = 8232 \<or> c = 8233 \<or> c = 8239 \<or> c = 8287 \<or>
      c = 12288)"

text \<open>The line boundaries of \<open>str.splitlines\<close>.\<close>

definition py_islinebreak :: "nat \<Rightarrow> bool" where
  "py_islinebreak c =
     ((10 \<le> c \<and> c \<le> 13) \<or> (28 \<le> c \<and> c \<le> 30) \<or> c = 133 \<or> c = 8232 \<or> c = 8233)"

definition is_ascii :: "nat \<Rightarrow> bool" where
  "is_ascii c = (c < 128)"

definition ascii_isupper :: "nat \<Rightarrow> bool" where
  "ascii_isupper c = (65 \<le> c \<and> c \<le> 90)"

definition ascii_islower :: "nat \<Rightarrow> bool" where
  "ascii_islower c = (97 \<le> c \<and> c \<le> 122)"

definition ascii_isalpha :: "nat \<Rightarrow> bool" where
  "ascii_isalpha c = (ascii_isupper c \<or> ascii_islower c)"

definition ascii_isdigit :: "nat \<Rightarrow> bool" where
  "ascii_isdigit c = (48 \<le> c \<and> c \<le> 57)"

definition ascii_lower :: "nat \<Rightarrow> nat" where
  "ascii_lower c = (if ascii_isupper c then c + 32 else c)"

definition ascii_upper :: "nat \<Rightarrow> nat" where
  "ascii_upper c = (if ascii_islower c then c - 32 else c)"

text \<open>The value of a decimal digit (the class \<open>\d\<close>, and the digits \<open>int()\<close> accepts).\<close>

definition py_decimal :: "'f pylib \<Rightarrow> nat \<Rightarrow> nat option" where
  "py_decimal L c =
     (if ascii_isdigit c then Some (c - 48) else if is_ascii c then None else u_decimal L c)"

definition is_digit :: "'f pylib \<Rightarrow> nat \<Rightarrow> bool" where
  "is_digit L c = (py_decimal L c \<noteq> None)"

definition py_isalpha :: "'f pylib \<Rightarrow> nat \<Rightarrow> bool" where
  "py_isalpha L c = (if is_ascii c then ascii_isalpha c else u_isalpha L c)"

subsection \<open>String methods\<close>

definition py_strip :: "pystr \<Rightarrow> pystr" where
  "py_strip s = rev (dropWhile py_isspace (rev (dropWhile py_isspace s)))"

text \<open>\<open>runs P [] s\<close> lists the maximal non-empty runs of characters satisfying \<open>P\<close>,
  left to right: \<open>s.split()\<close> for the non-blank characters and
  \<open>re.findall(r"\d+", s)\<close> for the digits.\<close>

fun runs :: "(nat \<Rightarrow> bool) \<Rightarrow> pystr \<Rightarrow> pystr \<Rightarrow> pystr list" where
  "runs P cur [] = (if cur = [] then [] else [cur])"
| "runs P cur (c # cs) =
     (if P c then runs P (cur @ [c]) cs
      else if cur = [] then runs P [] cs
      else cur # runs P [] cs)"

definition py_split :: "pystr \<Rightarrow> pystr list" where
  "py_split s = runs (\<lambda>c. \<not> py_isspace c) [] s"

fun splitlines_from :: "pystr \<Rightarrow> pystr \<Rightarrow> pystr list" where
  "splitlines_from cur [] = (if cur = [] then [] else [cur])"
| "splitlines_from cur (c # cs) =
     (if c = 13 then
        (case cs of
           [] \<Rightarrow> [cur]
         | d # ds \<Rightarrow> if d = 10 then cur # splitlines_from [] ds
                    else cur # splitlines_from [] (d # ds))
      else if py_islinebreak c then cur # splitlines_from [] cs
      else splitlines_from (cur @ [c]) cs)"

definition py_splitlines :: "pystr \<Rightarrow> pystr list" where
  "py_splitlines s = splitlines_from [] s"

fun py_join :: "pystr \<Rightarrow> pystr list \<Rightarrow> pystr" where
  "py_join sep [] = []"
| "py_join sep [x] = x"
| "py_join sep (x # y # xs) = x @ sep @ py_join sep (y # xs)"

definition startswith :: "pystr \<Rightarrow> pystr \<Rightarrow> bool" where
  "startswith s p = (take (length p) s = p)"

text \<open>\<open>sub in s\<close>.\<close>

fun contains :: "pystr \<Rightarrow> pystr \<Rightarrow> bool" where
  "contains [] sub = (sub = [])"
| "contains (c # cs) sub = (startswith (c # cs) sub \<or> contains cs sub)"

text \<open>\<open>s.lower()\<close>: outside ASCII the mapping of a character may depend on where it
  stands in the string (the final sigma), so the table is asked with the string and the
  position.\<close>

definition py_lower :: "'f pylib \<Rightarrow> pystr \<Rightarrow> pystr" where
  "py_lower L s =
     concat (map (\<lambda>(i, c). if is_ascii c then [ascii_lower c] else u_lower L s i)
                 (enumerate 0 s))"

definition py_upper :: "'f pylib \<Rightarrow> pystr \<Rightarrow> pystr" where
  "py_upper L s = concat (map (\<lambda>c. if is_ascii c then [ascii_upper c] else u_upper L c) s)"

text \<open>\<open>unicodedata.normalize("NFKC", s)\<close>: the identity on ASCII text.\<close>

definition normalize_text :: "'f pylib \<Rightarrow> pystr \<Rightarrow> pystr" where
  "normalize_text L s = (if list_all is_ascii s then s else nfkc L s)"

definition strip_non_ascii :: "pystr \<Rightarrow> pystr" where
  "strip_non_ascii s = filter is_ascii s"

text \<open>A table cell is a string or \<open>None\<close>; \<open>str(None)\<close> is the text \<open>None\<close>.\<close>

type_synonym cell = "pystr option"

definition py_str :: "cell \<Rightarrow> pystr" where
  "py_str c = (case c of None \<Rightarrow> str ''None'' | Some t \<Rightarrow> t)"

definition clean_cell :: "cell \<Rightarrow> pystr" where
  "clean_cell text =
     (case text of
        None \<Rightarrow> []
      | Some t \<Rightarrow> py_strip (map (\<lambda>c. if c = 10 then 32 else c) t))"

subsection \<open>\<open>int()\<close> and \<open>float()\<close> of a string\<close>

definition digits_value :: "'f pylib \<Rightarrow> pystr \<Rightarrow> nat" where
  "digits_value L ds =
     foldl (\<lambda>a c. 10 * a + (case py_decimal L c of None \<Rightarrow> 0 | Some d \<Rightarrow> d)) 0 ds"

text \<open>Digits, with single underscores allowed between two digits.\<close>

fun digitpart :: "'f pylib \<Rightarrow> pystr \<Rightarrow> bool" where
  "digitpart L [] = False"
| "digitpart L [c] = is_digit L c"
| "digitpart L (c # d # cs) =
     (is_digit L c \<and> (if d = 95 then cs \<noteq> [] \<and> digitpart L cs else digitpart L (d # cs)))"

definition strip_sign :: "pystr \<Rightarrow> bool \<times> pystr" where
  "strip_sign t =
     (case t of
        [] \<Rightarrow> (False, [])
      | c # r \<Rightarrow> if c = 45 then (True, r) else if c = 43 then (False, r) else (False, t))"

definition py_int :: "'f pylib \<Rightarrow> pystr \<Rightarrow> py_error + int" where
  "py_int L s =
     (let (neg, body) = strip_sign (py_strip s);
          ds = filter (\<lambda>c. c \<noteq> 95) body
      in if \<not> digitpart L body then Inl ValueError
         else if 640 < length ds \<and> max_str_digits L \<noteq> 0 \<and> max_str_digits L < length ds
           then Inl ValueError
         else Inr (if neg then - int (digits_value L ds) else int (digits_value L ds)))"

text \<open>\<open>cut P s\<close> splits \<open>s\<close> at its first character satisfying \<open>P\<close>.\<close>

definition cut :: "(nat \<Rightarrow> bool) \<Rightarrow> pystr \<Rightarrow> pystr \<times> pystr option" where
  "cut P s =
     (let a = takeWhile (\<lambda>c. \<not> P c) s; b = dropWhile (\<lambda>c. \<not> P c) s
      in (a, case b of [] \<Rightarrow> None | _ # r \<Rightarrow> Some r))"

definition float_syntax :: "'f pylib \<Rightarrow> pystr \<Rightarrow> float_lit option" where
  "float_syntax L s =
     (let (neg, body) = strip_sign (py_strip s);
          low = map ascii_lower body
      in if low = str ''inf'' \<or> low = str ''infinity'' then Some (FInf neg)
         else if low = str ''nan'' then Some (FNan neg)
         else
           let (mant, ex) = cut (\<lambda>c. c = 101 \<or> c = 69) body;
               (ip, fr) = cut (\<lambda>c. c = 46) mant;
               fp = (case fr of None \<Rightarrow> [] | Some f \<Rightarrow> f);
               mant_ok = ((ip = [] \<or> digitpart L ip) \<and> (fp = [] \<or> digitpart L fp) \<and>
                          (ip \<noteq> [] \<or> fp \<noteq> []));
               ex_ok = (case ex of None \<Rightarrow> True | Some e \<Rightarrow> digitpart L (snd (strip_sign e)));
               ipd = filter (\<lambda>c. c \<noteq> 95) ip;
               fpd = filter (\<lambda>c. c \<noteq> 95) fp;
               ev = (case ex of
                       None \<Rightarrow> 0
                     | Some e \<Rightarrow>
                         let (eneg, eb) = strip_sign e;
                             v = int (digits_value L (filter (\<lambda>c. c \<noteq> 95) eb))
                         in if eneg then - v else v)
           in if mant_ok \<and> ex_ok
              then Some (FDec neg (digits_value L (ipd @ fpd)) (ev - int (length fpd)))
              else None)"

definition py_float :: "'f pylib \<Rightarrow> pystr \<Rightarrow> py_error + 'f" where
  "py_float L s =
     (case float_syntax L s of
        None \<Rightarrow> Inl ValueError
      | Some lit \<Rightarrow> Inr (f_of_literal L lit))"

section \<open>Row normalizer: revision and quantity\<close>

text \<open>
  \<^verbatim>\<open>
  nums = re.findall(r"\d+", raw_chg)
  chg = nums[-1] if nums else "0"
  \<close>
\<close>

definition findall_digits :: "'f pylib \<Rightarrow> pystr \<Rightarrow> pystr list" where
  "findall_digits L s = runs (is_digit L) [] s"

definition revision_of :: "'f pylib \<Rightarrow> pystr \<Rightarrow> pystr" where
  "revision_of L raw_chg =
     (let nums = findall_digits L raw_chg in if nums \<noteq> [] then last nums else str ''0'')"

text \<open>
  \<^verbatim>\<open>
  try:
      qty = int(qt) if qt else None
  except ValueError:
      try:
          qty = float(qt)
      except ValueError:
          qty = None
  \<close>
  An \<open>except ValueError\<close> catches that error only; any other error leaves the function.
\<close>

definition parse_quantity :: "'f pylib \<Rightarrow> pystr \<Rightarrow> py_error + 'f pynum option" where
  "parse_quantity L qt =
     (if qt = [] then Inr None
      else case py_int L qt of
             Inr n \<Rightarrow> Inr (Some (PInt n))
           | Inl ValueError \<Rightarrow>
               (case py_float L qt of
                  Inr x \<Rightarrow> Inr (Some (PFloat x))
                | Inl ValueError \<Rightarrow> Inr None
                | Inl e \<Rightarrow> Inl e)
           | Inl e \<Rightarrow> Inl e)"

section \<open>Regular expressions\<close>

text \<open>
  The patterns of the source that are matched against a whole string are written as
  regular expressions over character classes and decided with derivatives. None of
  them has a back-reference or a look-around, so the backtracking matcher of \<open>re\<close>
  finds a match exactly when the string is in the language of the pattern.
\<close>

datatype rx = Never | Eps | Atom "nat \<Rightarrow> bool" | Seq rx rx | Alt rx rx | Star rx

definition Plus :: "rx \<Rightarrow> rx" where
  "Plus r = Seq r (Star r)"

definition Opt :: "rx \<Rightarrow> rx" where
  "Opt r = Alt r Eps"

fun Lit :: "(nat \<Rightarrow> nat \<Rightarrow> bool) \<Rightarrow> pystr \<Rightarrow> rx" where
  "Lit eq [] = Eps"
| "Lit eq (c # cs) = Seq (Atom (eq c)) (Lit eq cs)"

fun nullable :: "rx \<Rightarrow> bool" where
  "nullable Never = False"
| "nullable Eps = True"
| "nullable (Atom p) = False"
| "nullable (Seq r s) = (nullable r \<and> nullable s)"
| "nullable (Alt r s) = (nullable r \<or> nullable s)"
| "nullable (Star r) = True"

fun deriv :: "nat \<Rightarrow> rx \<Rightarrow> rx" where
  "deriv c Never = Never"
| "deriv c Eps = Never"
| "deriv c (Atom p) = (if p c then Eps else Never)"
| "deriv c (Seq r s) =
     (if nullable r then Alt (Seq (deriv c r) s) (deriv c s) else Seq (deriv c r) s)"
| "deriv c (Alt r s) = Alt (deriv c r) (deriv c s)"
| "deriv c (Star r) = Seq (deriv c r) (Star r)"

fun rx_fullmatch :: "rx \<Rightarrow> pystr \<Rightarrow> bool" where
  "rx_fullmatch r [] = nullable r"
| "rx_fullmatch r (c # cs) = rx_fullmatch (deriv c r) cs"

text \<open>\<open>re.match("^...$", s)\<close>: without \<open>re.MULTILINE\<close> the \<open>$\<close> matches at the end of
  the string and also just before a newline that ends the string.\<close>

definition re_match_anchored :: "rx \<Rightarrow> pystr \<Rightarrow> bool" where
  "re_match_anchored r s = rx_fullmatch (Seq r (Opt (Atom (\<lambda>c. c = 10)))) s"

text \<open>\<open>re.search(r"\d+", s)\<close>: the first maximal run of digits.\<close>

definition search_digits :: "'f pylib \<Rightarrow> pystr \<Rightarrow> pystr option" where
  "search_digits L s =
     (let t = dropWhile (\<lambda>c. \<not> is_digit L c) s
      in if t = [] then None else Some (takeWhile (is_digit L) t))"

text \<open>A pattern letter under \<open>re.IGNORECASE\<close>: the text character matches when its
  lower case is the letter; \<open>i\<close>, \<open>k\<close> and \<open>s\<close> also match their non-ASCII
  case variants (U+0130, U+0131, U+212A, U+017F).\<close>

definition ci_char :: "nat \<Rightarrow> nat \<Rightarrow> bool" where
  "ci_char p x =
     (ascii_lower x = p \<or> (p = 105 \<and> (x = 304 \<or> x = 305)) \<or> (p = 107 \<and> x = 8490) \<or>
      (p = 115 \<and> x = 383))"

section \<open>Notes\<close>

text \<open>
  \<^verbatim>\<open>
  _TRIVIAL_NOTE_REGEX = re.compile(r"^\s*(<U+6B20><U+56F3>\s*)?(in\s+preparation)\s*$", re.IGNORECASE)
  \<close>
\<close>

definition missing_drawing :: pystr where
  "missing_drawing = [27424, 22259]"

definition TRIVIAL_NOTE_REGEX :: rx where
  "TRIVIAL_NOTE_REGEX =
     Seq (Star (Atom py_isspace))
       (Seq (Opt (Seq (Lit (=) missing_drawing) (Star (Atom py_isspace))))
         (Seq (Seq (Lit ci_char (str ''in''))
                (Seq (Plus (Atom py_isspace)) (Lit ci_char (str ''preparation''))))
           (Star (Atom py_isspace))))"

definition is_trivial_note :: "'f pylib \<Rightarrow> pystr \<Rightarrow> bool" where
  "is_trivial_note L note =
     (if note = [] then False
      else let n = py_strip (normalize_text L note)
           in if re_match_anchored TRIVIAL_NOTE_REGEX n then True
              else if n = missing_drawing then True
              else False)"

text \<open>\<open>re.sub(r"\s+", " ", s)\<close>.\<close>

fun squeeze_from :: "bool \<Rightarrow> pystr \<Rightarrow> pystr" where
  "squeeze_from in_run [] = []"
| "squeeze_from in_run (c # cs) =
     (if py_isspace c then (if in_run then squeeze_from True cs else 32 # squeeze_from True cs)
      else c # squeeze_from False cs)"

definition squeeze_spaces :: "pystr \<Rightarrow> pystr" where
  "squeeze_spaces s = squeeze_from False s"

definition strip_chars :: "(nat \<Rightarrow> bool) \<Rightarrow> pystr \<Rightarrow> pystr" where
  "strip_chars P s = rev (dropWhile P (rev (dropWhile P s)))"

definition normalize_note :: "'f pylib \<Rightarrow> pystr \<Rightarrow> pystr" where
  "normalize_note L s =
     (if s = [] \<or> is_trivial_note L s then []
      else py_lower L
             (strip_chars (\<lambda>c. c = 32 \<or> c = 59 \<or> c = 58 \<or> c = 45)
                (squeeze_spaces (py_strip (normalize_text L s)))))"

section \<open>Deletion detector\<close>

text \<open>
  What the page-extraction primitive supplies for one page. A drawn line, a curve and a
  glyph carry their colours (absent when the key is missing; a colour is a tuple of
  numbers), their vertical extent and, for glyphs, the left edge \<open>x0\<close>.
  \<open>crop_text pg t b\<close> stands for
  \<^verbatim>\<open>page.crop((0, t - 13, 103, b + 10)).extract_text()\<close>: the text of the gutter
  strip around an object with top \<open>t\<close> and bottom \<open>b\<close>, or the error the crop raises.
\<close>

record pdf_obj =
  stroking_color :: "rat list option"
  non_stroking_color :: "rat list option"
  x0 :: "rat option"
  obj_top :: rat
  obj_bottom :: rat

type_synonym table = "cell list list"

record page =
  page_lines :: "pdf_obj list"
  page_curves :: "pdf_obj list"
  page_chars :: "pdf_obj list"
  crop_text :: "rat \<Rightarrow> rat \<Rightarrow> py_error + pystr"
  extract_tables :: "table list"
  extract_text :: "pystr option"

definition pure_red :: "rat list" where
  "pure_red = [1, 0, 0]"

fun fold_err :: "('a \<Rightarrow> 's \<Rightarrow> py_error + 's) \<Rightarrow> 'a list \<Rightarrow> 's \<Rightarrow> py_error + 's" where
  "fold_err f [] s = Inr s"
| "fold_err f (x # xs) s = (case f x s of Inl e \<Rightarrow> Inl e | Inr s' \<Rightarrow> fold_err f xs s')"

text \<open>
  The block shared by the three loops of \<open>get_deleted_indices\<close>:
  \<^verbatim>\<open>
  s = page.crop((0, l['top'] - 13, 103, l['bottom'] + 10)).extract_text()
  if s:
      m = re.search(r"\d+", s)
      if m:
          try:
              deleted.add(int(m.group(0)))
          except ValueError:
              pass
  \<close>
\<close>

definition mark_deleted :: "'f pylib \<Rightarrow> page \<Rightarrow> pdf_obj \<Rightarrow> int set \<Rightarrow> py_error + int set" where
  "mark_deleted L pg ob deleted =
     (case crop_text pg (obj_top ob) (obj_bottom ob) of
        Inl e \<Rightarrow> Inl e
      | Inr s \<Rightarrow>
          (case search_digits L s of
             None \<Rightarrow> Inr deleted
           | Some ds \<Rightarrow>
               (case py_int L ds of
                  Inr n \<Rightarrow> Inr (insert n deleted)
                | Inl ValueError \<Rightarrow> Inr deleted
                | Inl e \<Rightarrow> Inl e)))"

definition get_deleted_indices :: "'f pylib \<Rightarrow> page \<Rightarrow> py_error + int set" where
  "get_deleted_indices L pg =
     (case fold_err (\<lambda>l d. if stroking_color l = Some pure_red then mark_deleted L pg l d
                            else Inr d) (page_lines pg) {} of
        Inl e \<Rightarrow> Inl e
      | Inr d1 \<Rightarrow>
     (case fold_err (\<lambda>c d. if stroking_color c = Some pure_red then mark_deleted L pg c d
                            else Inr d) (page_curves pg) d1 of
        Inl e \<Rightarrow> Inl e
      | Inr d2 \<Rightarrow>
        fold_err (\<lambda>ch d. if non_stroking_color ch = Some pure_red \<and>
                             (case x0 ch of None \<Rightarrow> 9999 | Some x \<Rightarrow> x) < 103
                          then mark_deleted L pg ch d else Inr d) (page_chars pg) d2))"

text \<open>
  \<^verbatim>\<open>
  def parse_index_int(idx_text):
      m = re.match(r"^(\d+)", idx_text.strip())
      if not m:
          return None
      try:
          return int(m.group(1))
      except ValueError:
          return None
  \<close>
\<close>

definition parse_index_int :: "'f pylib \<Rightarrow> pystr \<Rightarrow> py_error + int option" where
  "parse_index_int L idx_text =
     (let ds = takeWhile (is_digit L) (py_strip idx_text)
      in if ds = [] then Inr None
         else case py_int L ds of
                Inr n \<Rightarrow> Inr (Some n)
              | Inl ValueError \<Rightarrow> Inr None
              | Inl e \<Rightarrow> Inl e)"

section \<open>Table locator\<close>

fun first_index_from :: "nat \<Rightarrow> ('a \<Rightarrow> bool) \<Rightarrow> 'a list \<Rightarrow> nat option" where
  "first_index_from i P [] = None"
| "first_index_from i P (x # xs) = (if P x then Some i else first_index_from (Suc i) P xs)"

text \<open>
  \<^verbatim>\<open>
  hdr_i = next(
      (i for i, row in enumerate(tbl[:6])
         if any(clean_cell(c).lower().startswith("level") for c in row)
            and any(clean_cell(c).lower().startswith("part number") for c in row)),
      2)
  \<close>
\<close>

definition is_header_row :: "'f pylib \<Rightarrow> cell list \<Rightarrow> bool" where
  "is_header_row L row =
     (list_ex (\<lambda>c. startswith (py_lower L (clean_cell c)) (str ''level'')) row \<and>
      list_ex (\<lambda>c. startswith (py_lower L (clean_cell c)) (str ''part number'')) row)"

definition find_header :: "'f pylib \<Rightarrow> table \<Rightarrow> nat" where
  "find_header L tbl =
     (case first_index_from 0 (is_header_row L) (take 6 tbl) of None \<Rightarrow> 2 | Some i \<Rightarrow> i)"

text \<open>The column map \<open>cmap\<close>; \<open>None\<close> is a role that is not set (yet).\<close>

record colmap =
  c_part_number :: "nat option"
  c_part_name :: "nat option"
  c_quantity :: "nat option"
  c_change :: "nat option"
  c_note :: "nat option"

definition map_column :: "'f pylib \<Rightarrow> nat \<times> cell \<Rightarrow> colmap \<Rightarrow> colmap" where
  "map_column L = (\<lambda>(ci, cell) cmap.
     let txt = py_lower L (clean_cell cell)
     in if contains txt (str ''part number'') then cmap\<lparr>c_part_number := Some ci\<rparr>
        else if contains txt (str ''part name'') then cmap\<lparr>c_part_name := Some ci\<rparr>
        else if contains txt (str ''qty'') then cmap\<lparr>c_quantity := Some ci\<rparr>
        else if contains txt (str ''change'') \<or> startswith txt (str ''rev'')
          then cmap\<lparr>c_change := Some ci\<rparr>
        else if contains txt (str ''note'') \<or> contains txt [20633]
          then cmap\<lparr>c_note := Some ci\<rparr>
        else cmap)"

definition map_columns :: "'f pylib \<Rightarrow> cell list \<Rightarrow> colmap" where
  "map_columns L hdr =
     (let cmap = fold (map_column L) (enumerate 0 hdr)
                   \<lparr>c_part_number = None, c_part_name = None, c_quantity = None,
                    c_change = None, c_note = None\<rparr>
      in cmap\<lparr>c_part_number := Some (case c_part_number cmap of None \<Rightarrow> 6 | Some i \<Rightarrow> i),
              c_part_name := Some (case c_part_name cmap of None \<Rightarrow> 19 | Some i \<Rightarrow> i)\<rparr>)"

section \<open>Row normalizer\<close>

definition CUT_THRESHOLD :: nat where
  "CUT_THRESHOLD = 3"

text \<open>\<open>JAPANESE_RE\<close>, the class of the code points U+3000 to U+30FF and U+4E00 to
  U+9FAF, searched in a line.\<close>

definition japanese :: "nat \<Rightarrow> bool" where
  "japanese c = ((12288 \<le> c \<and> c \<le> 12543) \<or> (19968 \<le> c \<and> c \<le> 40879))"

record 'f entry =
  level :: nat
  part_name :: pystr
  display_name :: pystr
  note_txt :: pystr
  note_norm :: pystr
  part_number :: pystr
  drawing_no :: pystr
  change :: pystr
  quantity :: "'f pynum option"
  flag_multiline_en :: bool
  flag_note_used :: bool

text \<open>
  \<^verbatim>\<open>
  level = next((ci for ci in range(1, 6) if ci < len(row) and clean_cell(row[ci])), 1)
  \<close>
\<close>

definition detect_level :: "cell list \<Rightarrow> nat" where
  "detect_level row =
     (case filter (\<lambda>ci. ci < length row \<and> clean_cell (row ! ci) \<noteq> []) [1, 2, 3, 4, 5] of
        [] \<Rightarrow> 1
      | ci # _ \<Rightarrow> ci)"

text \<open>\<open>row[i] if i < len(row) else ""\<close>, for a column index of the map.\<close>

definition cell_at :: "cell list \<Rightarrow> nat \<Rightarrow> cell" where
  "cell_at row i = (if i < length row then row ! i else Some [])"

text \<open>\<open>clean_cell(row[i]) if (i is not None and i < len(row)) else ""\<close>.\<close>

definition clean_at :: "cell list \<Rightarrow> nat option \<Rightarrow> pystr" where
  "clean_at row ci =
     (case ci of None \<Rightarrow> [] | Some i \<Rightarrow> if i < length row then clean_cell (row ! i) else [])"

text \<open>\<open>[ln.strip() for ln in text.splitlines() if ln.strip()]\<close>\<close>

definition stripped_lines :: "pystr \<Rightarrow> pystr list" where
  "stripped_lines text =
     map py_strip (filter (\<lambda>line. py_strip line \<noteq> []) (py_splitlines text))"

text \<open>\<open>raw_lines_all\<close>, the non-empty lines of \<open>str(raw)\<close>.\<close>

definition raw_lines :: "cell \<Rightarrow> pystr list" where
  "raw_lines raw = stripped_lines (py_str raw)"

text \<open>
  \<^verbatim>\<open>
  content = raw_lines_all[1:] if len(raw_lines_all) > 1 else raw_lines_all[:1]
  if content:
      cand = content[0]
      eng = re.sub(r'[^A-Za-z]', '', cand)
      if JAPANESE_RE.search(cand) or len(eng) < CUT_THRESHOLD:
          content = content[1:]
  \<close>
  The threshold is the module constant \<open>CUT_THRESHOLD\<close>; it is an argument here so that
  the same text can be read at another value of the constant.
\<close>

definition english_content :: "nat \<Rightarrow> pystr list \<Rightarrow> pystr list" where
  "english_content thr raw_lines_all =
     (let content = (if 1 < length raw_lines_all then tl raw_lines_all
                     else take 1 raw_lines_all)
      in case content of
           [] \<Rightarrow> []
         | cand # rest \<Rightarrow>
             if list_ex japanese cand \<or> length (filter ascii_isalpha cand) < thr then rest
             else content)"

text \<open>
  \<^verbatim>\<open>
  flat = ""
  for i, ln in enumerate(content):
      ln = ln.strip()
      if i == 0:
          flat = ln
      else:
          if flat and flat[-1].isalpha() and ln and ln[0].isalpha() and not flat.endswith(" "):
              flat += ln
          else:
              flat += " " + ln
  \<close>
\<close>

fun flatten_from :: "'f pylib \<Rightarrow> pystr \<Rightarrow> pystr list \<Rightarrow> pystr" where
  "flatten_from L flat [] = flat"
| "flatten_from L flat (line0 # rest) =
     (let line = py_strip line0
      in if flat \<noteq> [] \<and> py_isalpha L (last flat) \<and> line \<noteq> [] \<and> py_isalpha L (hd line) \<and>
            last flat \<noteq> 32
         then flatten_from L (flat @ line) rest
         else flatten_from L (flat @ [32] @ line) rest)"

definition flatten :: "'f pylib \<Rightarrow> pystr list \<Rightarrow> pystr" where
  "flatten L content =
     (case content of [] \<Rightarrow> [] | line # rest \<Rightarrow> flatten_from L (py_strip line) rest)"

text \<open>
  \<^verbatim>\<open>
  def fmt(w):
      if any(ch.isdigit() for ch in w):
          return w.upper()
      if w.isupper() and len(w) <= CUT_THRESHOLD:
          return w
      return w.lower().capitalize()
  \<close>
  \<open>fmt\<close> is only applied to the words of \<open>strip_non_ascii(flat)\<close>, so its string
  methods are the ASCII ones.
\<close>

definition ascii_word_isupper :: "pystr \<Rightarrow> bool" where
  "ascii_word_isupper w = (list_ex ascii_isupper w \<and> \<not> list_ex ascii_islower w)"

definition capitalize :: "pystr \<Rightarrow> pystr" where
  "capitalize w = (case w of [] \<Rightarrow> [] | c # cs \<Rightarrow> ascii_upper c # map ascii_lower cs)"

definition fmt :: "nat \<Rightarrow> pystr \<Rightarrow> pystr" where
  "fmt thr w =
     (if list_ex ascii_isdigit w then map ascii_upper w
      else if ascii_word_isupper w \<and> length w \<le> thr then w
      else capitalize (map ascii_lower w))"

text \<open>Lines 206 to 240 of the parser: from the non-empty lines of the part-name cell
  to \<open>pname\<close> and \<open>had_multiline_english\<close>.\<close>

definition build_part_name :: "'f pylib \<Rightarrow> nat \<Rightarrow> pystr list \<Rightarrow> pystr \<times> bool" where
  "build_part_name L thr raw_lines_all =
     (let content = english_content thr raw_lines_all;
          had_multiline_english = (1 < length content);
          words = py_split (strip_non_ascii (flatten L content));
          pname = py_strip (py_join [32] (map (fmt thr) words))
      in (pname, had_multiline_english))"

text \<open>The pattern of an item index, \<open>^\d+(?:\.\d+)?$\<close>.\<close>

definition ITEM_INDEX_REGEX :: "'f pylib \<Rightarrow> rx" where
  "ITEM_INDEX_REGEX L =
     Seq (Plus (Atom (is_digit L)))
         (Opt (Seq (Atom (\<lambda>c. c = 46)) (Plus (Atom (is_digit L)))))"

text \<open>
  The body of the loop \<open>for row in tbl[hdr_i + 1:]\<close> of \<open>parse_bom_pdf\<close>:
  \<open>Inr None\<close> is a \<open>continue\<close>, \<open>Inr (Some e)\<close> the entry appended, \<open>Inl\<close> an error
  that leaves the parser (\<open>row[0]\<close> of a row without cells).
\<close>

definition normalize_row ::
    "'f pylib \<Rightarrow> nat \<Rightarrow> colmap \<Rightarrow> int set \<Rightarrow> cell list \<Rightarrow> py_error + 'f entry option" where
  "normalize_row L thr cmap deleted_idxs row =
     (case row of
        [] \<Rightarrow> Inl IndexError
      | c0 # _ \<Rightarrow>
     (let idx = clean_cell c0
      in if idx = [] \<or> \<not> re_match_anchored (ITEM_INDEX_REGEX L) idx then Inr None
         else case parse_index_int L idx of
                Inl e \<Rightarrow> Inl e
              | Inr idx_int \<Rightarrow>
         if (case idx_int of None \<Rightarrow> False | Some n \<Rightarrow> n \<in> deleted_idxs) then Inr None
         else
           let lvl = detect_level row;
               raw = cell_at row (case c_part_name cmap of None \<Rightarrow> 19 | Some i \<Rightarrow> i);
               raw_lines_all = raw_lines raw;
               raw_text = py_lower L (py_join [32] raw_lines_all)
           in if lvl = 1 \<and> contains raw_text (str ''outline drawing'') then Inr None
              else
                let note0 = clean_at row (c_note cmap);
                    note = (if is_trivial_note L note0 then [] else note0);
                    (pname, had_multiline_english) = build_part_name L thr raw_lines_all
                in if pname = [] then Inr None
                   else
                     let pn = normalize_text L
                                (clean_at row (Some (case c_part_number cmap of
                                                       None \<Rightarrow> 6 | Some i \<Rightarrow> i)));
                         chg = revision_of L (clean_at row (c_change cmap))
                     in case parse_quantity L (clean_at row (c_quantity cmap)) of
                          Inl e \<Rightarrow> Inl e
                        | Inr qty \<Rightarrow>
                            Inr (Some \<lparr>level = lvl,
                                       part_name = pname,
                                       display_name = (if note \<noteq> [] then note else pname),
                                       note_txt = note,
                                       note_norm = normalize_note L note,
                                       part_number = pn,
                                       drawing_no = pn,
                                       change = chg,
                                       quantity = qty,
                                       flag_multiline_en = had_multiline_english,
                                       flag_note_used = (note \<noteq> [])\<rparr>)))"

text \<open>The entries of one table: the rows strictly after the header row, in order.\<close>

fun normalize_rows ::
    "'f pylib \<Rightarrow> nat \<Rightarrow> colmap \<Rightarrow> int set \<Rightarrow> cell list list \<Rightarrow> py_error + 'f entry list" where
  "normalize_rows L thr cmap deleted_idxs [] = Inr []"
| "normalize_rows L thr cmap deleted_idxs (row # rows) =
     (case normalize_row L thr cmap deleted_idxs row of
        Inl e \<Rightarrow> Inl e
      | Inr r \<Rightarrow>
          (case normalize_rows L thr cmap deleted_idxs rows of
             Inl e \<Rightarrow> Inl e
           | Inr es \<Rightarrow> Inr ((case r of None \<Rightarrow> [] | Some e \<Rightarrow> [e]) @ es)))"

text \<open>One iteration of \<open>for page in pdf.pages\<close>: the entries this page appends.\<close>

definition parse_page :: "'f pylib \<Rightarrow> page \<Rightarrow> py_error + 'f entry list" where
  "parse_page L pg =
     (case get_deleted_indices L pg of
        Inl e \<Rightarrow> Inl e
      | Inr deleted_idxs \<Rightarrow>
          (case extract_tables pg of
             [] \<Rightarrow> Inr []
           | tbl # _ \<Rightarrow>
               let hdr_i = find_header L tbl
               in if length tbl \<le> hdr_i then Inl IndexError
                  else normalize_rows L CUT_THRESHOLD (map_columns L (tbl ! hdr_i))
                         deleted_idxs (drop (hdr_i + 1) tbl)))"

fun parse_bom_pdf :: "'f pylib \<Rightarrow> page list \<Rightarrow> py_error + 'f entry list" where
  "parse_bom_pdf L [] = Inr []"
| "parse_bom_pdf L (pg # pgs) =
     (case parse_page L pg of
        Inl e \<Rightarrow> Inl e
      | Inr es \<Rightarrow>
          (case parse_bom_pdf L pgs of Inl e \<Rightarrow> Inl e | Inr es' \<Rightarrow> Inr (es @ es')))"

section \<open>Metadata extractor\<close>

definition is_anchor :: "'f pylib \<Rightarrow> pystr \<Rightarrow> bool" where
  "is_anchor L line =
     (let up = py_upper L line
      in startswith up (str ''PRODUCT NUMBER'') \<and> contains up (str ''CUSTOMER''))"

text \<open>
  \<^verbatim>\<open>
  for i, line in enumerate(lines):
      up = line.upper()
      if up.startswith("PRODUCT NUMBER") and "CUSTOMER" in up:
          if i > 0:
              parts = lines[i-1].split()
              if len(parts) >= 2:
                  return strip_non_ascii(normalize_text(parts[1])), strip_non_ascii(normalize_text(parts[0]))
          break
  return "", ""
  \<close>
  The loop carries the line before the current one: \<open>None\<close> while \<open>i = 0\<close>, then
  \<open>lines[i-1]\<close>.
\<close>

fun scan_lines :: "'f pylib \<Rightarrow> pystr option \<Rightarrow> pystr list \<Rightarrow> pystr \<times> pystr" where
  "scan_lines L prev [] = ([], [])"
| "scan_lines L prev (line # rest) =
     (if is_anchor L line then
        (case prev of
           None \<Rightarrow> ([], [])
         | Some p \<Rightarrow>
             (case py_split p of
                p0 # p1 # _ \<Rightarrow>
                  (strip_non_ascii (normalize_text L p1), strip_non_ascii (normalize_text L p0))
              | _ \<Rightarrow> ([], [])))
      else scan_lines L (Some line) rest)"

definition parse_pdf_metadata :: "'f pylib \<Rightarrow> page list \<Rightarrow> pystr \<times> pystr" where
  "parse_pdf_metadata L pages =
     (let full_text = concat (map (\<lambda>pg. case extract_text pg of None \<Rightarrow> [] | Some t \<Rightarrow> t) pages)
      in scan_lines L None (stripped_lines full_text))"

section \<open>Multi-variant reconciler\<close>

fun str_of_nat :: "nat \<Rightarrow> pystr" where
  "str_of_nat n = (if n < 10 then [48 + n] else str_of_nat (n div 10) @ [48 + n mod 10])"

text \<open>
  \<^verbatim>\<open>
  def make_key(r, vi, seq):
      if r['level'] == 1:
          nn = r.get('note_norm', "")
          return f"{r['part_number']}@@n={nn}"
      return f"{r['part_number']}@@v{vi}@@i{seq}"
  \<close>
\<close>

definition make_key :: "'f entry \<Rightarrow> nat \<Rightarrow> nat \<Rightarrow> pystr" where
  "make_key r vi seq =
     (if level r = 1 then part_number r @ str ''@@n='' @ note_norm r
      else part_number r @ str ''@@v'' @ str_of_nat vi @ str ''@@i'' @ str_of_nat seq)"

text \<open>A merged part is \<open>{**r, 'qtys': [...]}\<close>: the fields of the entry that seeded it
  and the quantity vector.\<close>

record 'f merged = "'f entry" +
  qtys :: "'f pynum option list"

record 'f rstate =
  parts :: "pystr \<rightharpoonup> 'f merged"
  initial_order :: "pystr list"
  seq_counter :: nat

text \<open>Python's \<open>+\<close> on two numbers: an \<open>int\<close> operand of a mixed sum is converted to
  \<open>float\<close>, which raises \<open>OverflowError\<close> when it is out of range.\<close>

definition py_add :: "'f pylib \<Rightarrow> 'f pynum \<Rightarrow> 'f pynum \<Rightarrow> py_error + 'f pynum" where
  "py_add L a b =
     (case (a, b) of
        (PInt x, PInt y) \<Rightarrow> Inr (PInt (x + y))
      | (PInt x, PFloat y) \<Rightarrow>
          (case f_of_int L x of None \<Rightarrow> Inl OverflowError | Some x' \<Rightarrow> Inr (PFloat (f_add L x' y)))
      | (PFloat x, PInt y) \<Rightarrow>
          (case f_of_int L y of None \<Rightarrow> Inl OverflowError | Some y' \<Rightarrow> Inr (PFloat (f_add L x y')))
      | (PFloat x, PFloat y) \<Rightarrow> Inr (PFloat (f_add L x y)))"

text \<open>\<open>x == 0\<close>, which for a number is also \<open>not x\<close>.\<close>

definition num_is_zero :: "'f pylib \<Rightarrow> 'f pynum \<Rightarrow> bool" where
  "num_is_zero L x = (case x of PInt n \<Rightarrow> n = 0 | PFloat y \<Rightarrow> f_is_zero L y)"

text \<open>\<open>existing or 0\<close>\<close>

definition or_zero :: "'f pylib \<Rightarrow> 'f pynum option \<Rightarrow> 'f pynum" where
  "or_zero L existing =
     (case existing of None \<Rightarrow> PInt 0 | Some x \<Rightarrow> if num_is_zero L x then PInt 0 else x)"

text \<open>
  \<^verbatim>\<open>
  q_add = r['quantity']
  if q_add is not None:
      new_total = (existing or 0) + q_add
      parts[key]['qtys'][vi] = None if new_total == 0 else new_total
  \<close>
  as the new value of the slot that held \<open>existing\<close>.
\<close>

definition add_quantity ::
    "'f pylib \<Rightarrow> 'f pynum option \<Rightarrow> 'f pynum option \<Rightarrow> py_error + 'f pynum option" where
  "add_quantity L existing q =
     (case q of
        None \<Rightarrow> Inr existing
      | Some q_add \<Rightarrow>
          (case py_add L (or_zero L existing) q_add of
             Inl e \<Rightarrow> Inl e
           | Inr new_total \<Rightarrow> Inr (if num_is_zero L new_total then None else Some new_total)))"

text \<open>The body of the inner loop of the part that builds \<open>parts\<close>, for the entry \<open>r\<close> of
  variant \<open>vi\<close>; \<open>n\<close> is \<open>len(sheets)\<close>.\<close>

definition sight :: "'f pylib \<Rightarrow> nat \<Rightarrow> nat \<Rightarrow> 'f entry \<Rightarrow> 'f rstate \<Rightarrow> py_error + 'f rstate" where
  "sight L n vi r st =
     (let key = make_key r vi (seq_counter st);
          m = (case parts st key of
                 None \<Rightarrow> entry.extend r \<lparr>qtys = replicate n None\<rparr>
               | Some m0 \<Rightarrow> m0)
      in if length (qtys m) \<le> vi then Inl IndexError
         else case add_quantity L (qtys m ! vi) (quantity r) of
                Inl e \<Rightarrow> Inl e
              | Inr slot \<Rightarrow>
                  Inr \<lparr>parts = (parts st)(key \<mapsto> m\<lparr>qtys := (qtys m)[vi := slot]\<rparr>),
                       initial_order = (if key \<in> set (initial_order st) then initial_order st
                                        else initial_order st @ [key]),
                       seq_counter = seq_counter st + 1\<rparr>)"

text \<open>A variant is \<open>(label, entries, customer, product)\<close>.\<close>

type_synonym 'f sheet = "pystr \<times> 'f entry list \<times> pystr \<times> pystr"

definition ents_of :: "'f sheet \<Rightarrow> 'f entry list" where
  "ents_of sh = fst (snd sh)"

definition build_parts :: "'f pylib \<Rightarrow> 'f sheet list \<Rightarrow> py_error + 'f rstate" where
  "build_parts L sheets =
     fold_err (\<lambda>(vi, sh) st. fold_err (sight L (length sheets) vi) (ents_of sh) st)
       (enumerate 0 sheets)
       \<lparr>parts = Map.empty, initial_order = [], seq_counter = 0\<rparr>"

text \<open>
  For stating what a slot holds: the entries in processing order with their variant
  index and sequence number, the quantities of the sightings of a key inside one
  variant, and the running total of a list of quantities.
\<close>

fun numbered :: "nat \<Rightarrow> nat \<Rightarrow> 'f sheet list \<Rightarrow> (nat \<times> nat \<times> 'f entry) list" where
  "numbered vi seq [] = []"
| "numbered vi seq (sh # rest) =
     map (\<lambda>(j, r). (vi, seq + j, r)) (enumerate 0 (ents_of sh)) @
     numbered (Suc vi) (seq + length (ents_of sh)) rest"

definition sightings :: "'f sheet list \<Rightarrow> pystr \<Rightarrow> nat \<Rightarrow> 'f pynum option list" where
  "sightings sheets key vi =
     map (\<lambda>(v, s, r). quantity r)
         (filter (\<lambda>(v, s, r). v = vi \<and> make_key r v s = key) (numbered 0 0 sheets))"

definition running_total :: "'f pylib \<Rightarrow> 'f pynum option list \<Rightarrow> py_error + 'f pynum option" where
  "running_total L qs = fold_err (\<lambda>q existing. add_quantity L existing q) qs None"

text \<open>The slot of variant \<open>vi\<close> in the quantity vector of the part merged under a key
  (absent while the key is unknown), the state in which every quantity vector has one
  slot per variant, and the loop body on a numbered entry.\<close>

definition slot_of :: "'f rstate \<Rightarrow> pystr \<Rightarrow> nat \<Rightarrow> 'f pynum option" where
  "slot_of st key vi = (case parts st key of None \<Rightarrow> None | Some m \<Rightarrow> qtys m ! vi)"

definition wf_state :: "nat \<Rightarrow> 'f rstate \<Rightarrow> bool" where
  "wf_state n st = (\<forall>key m. parts st key = Some m \<longrightarrow> length (qtys m) = n)"

definition step :: "'f pylib \<Rightarrow> nat \<Rightarrow> nat \<times> nat \<times> 'f entry \<Rightarrow> 'f rstate \<Rightarrow> py_error + 'f rstate" where
  "step L n = (\<lambda>(vi, s, r) st. sight L n vi r st)"




section \<open>The earlier generation of the parser (convert.py)\<close>

text \<open>
  \<^verbatim>\<open>
  header_idx = None
  for i, row in enumerate(tbl[:6]):
      low = [clean_cell(c).lower() for c in row]
      if any("level" in c for c in low) \
      and any("part number" in c for c in low) \
      and any("qty" in c for c in low):
          header_idx = i
          break
  if header_idx is None:
      header_idx = 2
  \<close>
\<close>

definition convert_is_header_row :: "'f pylib \<Rightarrow> cell list \<Rightarrow> bool" where
  "convert_is_header_row L row =
     (let low = map (\<lambda>c. py_lower L (clean_cell c)) row
      in list_ex (\<lambda>c. contains c (str ''level'')) low \<and>
         list_ex (\<lambda>c. contains c (str ''part number'')) low \<and>
         list_ex (\<lambda>c. contains c (str ''qty'')) low)"

definition convert_find_header :: "'f pylib \<Rightarrow> table \<Rightarrow> nat" where
  "convert_find_header L tbl =
     (case first_index_from 0 (convert_is_header_row L) (take 6 tbl) of
        None \<Rightarrow> 2
      | Some i \<Rightarrow> i)"

record convert_colmap =
  v_part_number :: "nat option"
  v_draw_no :: "nat option"
  v_part_name :: "nat option"
  v_quantity :: "nat option"
  v_note :: "nat option"
  v_change :: "nat option"

definition convert_map_column :: "'f pylib \<Rightarrow> nat \<times> cell \<Rightarrow> convert_colmap \<Rightarrow> convert_colmap" where
  "convert_map_column L = (\<lambda>(i, cell) col_map.
     let t = py_lower L (clean_cell cell)
     in if contains t (str ''part number'') then col_map\<lparr>v_part_number := Some i\<rparr>
        else if (contains t (str ''draw.no'') \<or> contains t (str ''draw no'') \<or>
                 contains t (str ''draw.'')) \<and> \<not> contains t (str ''product number'')
          then (if v_draw_no col_map = None then col_map\<lparr>v_draw_no := Some i\<rparr> else col_map)
        else if contains t (str ''part name'') then col_map\<lparr>v_part_name := Some i\<rparr>
        else if contains t (str ''qty'') then col_map\<lparr>v_quantity := Some i\<rparr>
        else if contains t (str ''note'') then col_map\<lparr>v_note := Some i\<rparr>
        else if contains t (str ''change'') then col_map\<lparr>v_change := Some i\<rparr>
        else col_map)"

definition convert_map_columns :: "'f pylib \<Rightarrow> cell list \<Rightarrow> convert_colmap" where
  "convert_map_columns L header =
     (let m = fold (convert_map_column L) (enumerate 0 header)
                \<lparr>v_part_number = None, v_draw_no = None, v_part_name = None,
                 v_quantity = None, v_note = None, v_change = None\<rparr>;
          dflt = (\<lambda>d v. Some (case v of None \<Rightarrow> d | Some i \<Rightarrow> i))
      in \<lparr>v_part_number = dflt 6 (v_part_number m), v_draw_no = dflt 17 (v_draw_no m),
          v_part_name = dflt 19 (v_part_name m), v_quantity = dflt 23 (v_quantity m),
          v_note = dflt 24 (v_note m), v_change = v_change m\<rparr>)"

record convert_entry =
  e_page :: nat
  e_item_no :: pystr
  e_level :: pystr
  e_part_number :: pystr
  e_draw_no :: pystr
  e_part_name :: pystr
  e_quantity :: pystr
  e_note :: pystr
  e_change :: pystr

text \<open>
  \<^verbatim>\<open>
  level = ""
  for lvl in range(1, 6):
      if lvl < len(row):
          v = clean_cell(row[lvl])
          if v:
              level = v
              break
  \<close>
\<close>

definition convert_level :: "cell list \<Rightarrow> pystr" where
  "convert_level row =
     (case filter (\<lambda>lvl. lvl < length row \<and> clean_cell (row ! lvl) \<noteq> []) [1, 2, 3, 4, 5] of
        [] \<Rightarrow> []
      | lvl # _ \<Rightarrow> clean_cell (row ! lvl))"

text \<open>The body of \<open>for row in tbl[header_idx + 1:]\<close> of \<open>parse_bom\<close>.\<close>

definition convert_row ::
    "'f pylib \<Rightarrow> nat \<Rightarrow> convert_colmap \<Rightarrow> cell list \<Rightarrow> py_error + convert_entry option" where
  "convert_row L pg col_map row =
     (case row of
        [] \<Rightarrow> Inl IndexError
      | c0 # _ \<Rightarrow>
          let item_no = clean_cell c0
          in if item_no = [] \<or> \<not> re_match_anchored (ITEM_INDEX_REGEX L) item_no then Inr None
             else Inr (Some \<lparr>e_page = pg,
                             e_item_no = item_no,
                             e_level = convert_level row,
                             e_part_number = clean_at row (v_part_number col_map),
                             e_draw_no = clean_at row (v_draw_no col_map),
                             e_part_name = strip_non_ascii (clean_at row (v_part_name col_map)),
                             e_quantity = clean_at row (v_quantity col_map),
                             e_note = clean_at row (v_note col_map),
                             e_change = clean_at row (v_change col_map)\<rparr>))"

fun convert_rows ::
    "'f pylib \<Rightarrow> nat \<Rightarrow> convert_colmap \<Rightarrow> cell list list \<Rightarrow> py_error + convert_entry list" where
  "convert_rows L pg col_map [] = Inr []"
| "convert_rows L pg col_map (row # rows) =
     (case convert_row L pg col_map row of
        Inl e \<Rightarrow> Inl e
      | Inr r \<Rightarrow>
          (case convert_rows L pg col_map rows of
             Inl e \<Rightarrow> Inl e
           | Inr es \<Rightarrow> Inr ((case r of None \<Rightarrow> [] | Some e \<Rightarrow> [e]) @ es)))"

definition convert_page :: "'f pylib \<Rightarrow> nat \<Rightarrow> page \<Rightarrow> py_error + convert_entry list" where
  "convert_page L pg page =
     (case extract_tables page of
        [] \<Rightarrow> Inr []
      | tbl # _ \<Rightarrow>
          let header_idx = convert_find_header L tbl
          in if length tbl \<le> header_idx then Inl IndexError
             else convert_rows L pg (convert_map_columns L (tbl ! header_idx))
                    (drop (header_idx + 1) tbl))"

section \<open>Reading the specification\<close>

text \<open>
  The dotted-decimal pattern in the words of the specification: one or two groups of
  digits, separated by a dot.
\<close>

definition numeric_group :: "'f pylib \<Rightarrow> pystr \<Rightarrow> bool" where
  "numeric_group L g = (g \<noteq> [] \<and> list_all (is_digit L) g)"

definition spec_dotted_decimal :: "'f pylib \<Rightarrow> pystr \<Rightarrow> bool" where
  "spec_dotted_decimal L s =
     (case cut (\<lambda>c. c = 46) s of
        (a, None) \<Rightarrow> numeric_group L a
      | (a, Some b) \<Rightarrow> numeric_group L a \<and> numeric_group L b)"

text \<open>The header condition in the words of the specification, in its looser form: a
  cell that starts with \<open>level\<close> and a cell that contains \<open>part number\<close>.\<close>

definition spec_is_header_row :: "'f pylib \<Rightarrow> cell list \<Rightarrow> bool" where
  "spec_is_header_row L row =
     (list_ex (\<lambda>c. startswith (py_lower L (clean_cell c)) (str ''level'')) row \<and>
      list_ex (\<lambda>c. contains (py_lower L (clean_cell c)) (str ''part number'')) row)"

text \<open>An interpreter instance for evaluating examples: no digits or letters beyond
  ASCII, identity case mappings and NFKC there, the default limit of 4300 digits, and
  floats held as exact rationals.\<close>

definition example_lib :: "rat pylib" where
  "example_lib =
     \<lparr>u_decimal = (\<lambda>c. None), u_isalpha = (\<lambda>c. False), u_lower = (\<lambda>s i. [s ! i]),
      u_upper = (\<lambda>c. [c]), nfkc = (\<lambda>s. s), max_str_digits = 4300,
      f_of_literal = (\<lambda>lit. case lit of
                        FDec neg m e \<Rightarrow> (if neg then - 1 else 1) * of_nat m *
                                        (if 0 \<le> e then 10 ^ nat e else 1 / 10 ^ nat (- e))
                      | _ \<Rightarrow> 0),
      f_of_int = (\<lambda>i. Some (of_int i)), f_add = (+), f_is_zero = (\<lambda>x. x = 0)\<rparr>"

text \<open>A row whose item-index cell has a leading integer that is in the deletion set.\<close>

definition flagged :: "'f pylib \<Rightarrow> int set \<Rightarrow> cell list \<Rightarrow> bool" where
  "flagged L deleted row =
     (case row of
        [] \<Rightarrow> False
      | c0 # _ \<Rightarrow>
          (case parse_index_int L (clean_cell c0) of
             Inr (Some n) \<Rightarrow> n \<in> deleted
           | _ \<Rightarrow> False))"

text \<open>The language of a regular expression, for reasoning about the matcher.\<close>

inductive_set star :: "pystr set \<Rightarrow> pystr set" for A :: "pystr set" where
  star_nil: "[] \<in> star A"
| star_app: "u \<in> A \<Longrightarrow> v \<in> star A \<Longrightarrow> u @ v \<in> star A"

fun lang :: "rx \<Rightarrow> pystr set" where
  "lang Never = {}"
| "lang Eps = {[]}"
| "lang (Atom p) = {[c] | c. p c}"
| "lang (Seq r s) = {u @ v | u v. u \<in> lang r \<and> v \<in> lang s}"
| "lang (Alt r s) = lang r \<union> lang s"
| "lang (Star r) = star (lang r)"

text \<open>
  The quantity slot in the words of the specification: the quantities that are present
  are added one after the other, starting from nothing, and a running total that is
  exactly zero is held as absent. The sum of two numbers is written out: two integers
  add as integers; when one of them is a float the integer is converted and the floats
  are added.
\<close>

definition present :: "'a option list \<Rightarrow> 'a list" where
  "present qs = concat (map (\<lambda>q. case q of None \<Rightarrow> [] | Some x \<Rightarrow> [x]) qs)"

definition spec_plus :: "'f pylib \<Rightarrow> 'f pynum \<Rightarrow> 'f pynum \<Rightarrow> py_error + 'f pynum" where
  "spec_plus L a b =
     (case a of
        PInt x \<Rightarrow>
          (case b of
             PInt y \<Rightarrow> Inr (PInt (x + y))
           | PFloat y \<Rightarrow>
               (case f_of_int L x of
                  None \<Rightarrow> Inl OverflowError
                | Some x' \<Rightarrow> Inr (PFloat (f_add L x' y))))
      | PFloat x \<Rightarrow>
          (case b of
             PInt y \<Rightarrow>
               (case f_of_int L y of
                  None \<Rightarrow> Inl OverflowError
                | Some y' \<Rightarrow> Inr (PFloat (f_add L x y')))
           | PFloat y \<Rightarrow> Inr (PFloat (f_add L x y))))"

definition spec_collapse :: "'f pylib \<Rightarrow> 'f pynum \<Rightarrow> 'f pynum option" where
  "spec_collapse L t =
     (case t of
        PInt n \<Rightarrow> if n = 0 then None else Some (PInt n)
      | PFloat y \<Rightarrow> if f_is_zero L y then None else Some (PFloat y))"

fun spec_sum_from :: "'f pylib \<Rightarrow> 'f pynum option \<Rightarrow> 'f pynum list \<Rightarrow> py_error + 'f pynum option" where
  "spec_sum_from L running [] = Inr running"
| "spec_sum_from L running (q # qs) =
     (case spec_plus L (case running of None \<Rightarrow> PInt 0 | Some t \<Rightarrow> t) q of
        Inl e \<Rightarrow> Inl e
      | Inr t \<Rightarrow> spec_sum_from L (spec_collapse L t) qs)"

definition spec_slot :: "'f pylib \<Rightarrow> 'f pynum option list \<Rightarrow> py_error + 'f pynum option" where
  "spec_slot L qs = spec_sum_from L None (present qs)"

text \<open>The plain sum of a list of numbers from a start value, left to right, and the
  lists along which no total before the last one is zero.\<close>

fun plain_sum_from :: "'f pylib \<Rightarrow> 'f pynum \<Rightarrow> 'f pynum list \<Rightarrow> py_error + 'f pynum" where
  "plain_sum_from L a [] = Inr a"
| "plain_sum_from L a (q # qs) =
     (case spec_plus L a q of Inl e \<Rightarrow> Inl e | Inr t \<Rightarrow> plain_sum_from L t qs)"

fun no_zero_between :: "'f pylib \<Rightarrow> 'f pynum \<Rightarrow> 'f pynum list \<Rightarrow> bool" where
  "no_zero_between L a [] = True"
| "no_zero_between L a [q] = True"
| "no_zero_between L a (q # q' # qs) =
     (case spec_plus L a q of
        Inl e \<Rightarrow> True
      | Inr t \<Rightarrow> spec_collapse L t = Some t \<and> no_zero_between L t (q' # qs))"

text \<open>The quantity vector stored under a key in the result of the build loop.\<close>

definition slots_of :: "py_error + 'f rstate \<Rightarrow> pystr \<Rightarrow> 'f pynum option list option" where
  "slots_of res key =
     (case res of Inl e \<Rightarrow> None | Inr st \<Rightarrow> map_option qtys (parts st key))"

section \<open>Example data\<close>

text \<open>A small page: a header row, a row with item 12.1 and a row with item 13; a red
  line in the gutter whose strip reads \<open>12\<close>.\<close>

definition example_header :: "cell list" where
  "example_header =
     [Some (str ''No''), Some (str ''Level''), Some (str ''Part Number''),
      Some (str ''Part Name''), Some (str ''QTY''), Some (str ''Change'')]"

definition example_cmap :: colmap where
  "example_cmap =
     \<lparr>c_part_number = Some 2, c_part_name = Some 3, c_quantity = Some 4,
      c_change = Some 5, c_note = None\<rparr>"

definition example_row :: "cell list" where
  "example_row =
     [Some (str ''13''), Some (str ''1''), Some (str ''7009''),
      Some (str ''JP'' @ [10] @ str ''BRACKET''), Some (str ''2''),
      Some (str ''Rev 3 (was 2)'')]"

definition example_convert_cmap :: convert_colmap where
  "example_convert_cmap =
     \<lparr>v_part_number = Some 2, v_draw_no = Some 17, v_part_name = Some 3,
      v_quantity = Some 4, v_note = Some 24, v_change = Some 5\<rparr>"

definition struck_row :: "cell list" where
  "struck_row =
     [Some (str ''12.1''), Some (str ''1''), Some (str ''7010''),
      Some (str ''JP'' @ [10] @ str ''CLAMP''), Some (str ''1''), None]"

definition example_entry :: "rat entry" where
  "example_entry =
     \<lparr>level = 1, part_name = str ''Bracket'', display_name = str ''Bracket'',
      note_txt = [], note_norm = [], part_number = str ''7009'', drawing_no = str ''7009'',
      change = str ''2'', quantity = Some (PInt 2), flag_multiline_en = False,
      flag_note_used = False\<rparr>"

definition example_page :: page where
  "example_page =
     \<lparr>page_lines = [\<lparr>stroking_color = Some [1, 0, 0], non_stroking_color = None,
                     x0 = Some 20, obj_top = 100, obj_bottom = 101\<rparr>],
      page_curves = [],
      page_chars = [],
      crop_text = (\<lambda>t b. Inr (str ''12'')),
      extract_tables = [[example_header, struck_row, example_row]],
      extract_text = Some (str ''X'' @ [10] @ str ''PRODUCT NUMBER CUSTOMER'' @ [10] @
                           str ''P1 C1'' @ [10] @ str ''PRODUCT NUMBER / CUSTOMER'')\<rparr>"

text \<open>A table whose first row has a cell starting with \<open>level\<close> and a cell that
  contains, but does not start with, \<open>part number\<close>.\<close>

definition loose_header_table :: table where
  "loose_header_table =
     [[Some (str ''Level''), Some (str ''Yazaki Part Number'')],
      [Some (str ''1''), Some (str ''7009'')],
      [Some (str ''2''), Some (str ''7010'')]]"

text \<open>The part-name cell of the end-to-end example: a first line of three CJK
  characters (U+90E8, U+54C1, U+540D), then \<open>AS\<close>, then \<open>SY BRACKET\<close>.\<close>

definition example_name_lines :: "pystr list" where
  "example_name_lines = [[37096, 21697, 21517], str ''AS'', str ''SY BRACKET'']"

text \<open>A row with item 14 whose part-name cell holds these three lines.\<close>

definition example_name_row :: "cell list" where
  "example_name_row =
     [Some (str ''14''), Some (str ''1''), Some (str ''7011''),
      Some ([37096, 21697, 21517, 10] @ str ''AS'' @ [10] @ str ''SY BRACKET''),
      Some (str ''1''), None]"

text \<open>Two variants for the reconciler. Variant 0 lists part 7009 twice without a note,
  with quantities 3 and -3, and once more without a quantity under the note \<open>lhd\<close>;
  variant 1 lists it once under the note \<open>rhd\<close> with quantity 4.\<close>

definition top_entry :: "string \<Rightarrow> rat pynum option \<Rightarrow> rat entry" where
  "top_entry nn q =
     \<lparr>level = 1, part_name = str ''Bracket'', display_name = str ''Bracket'',
      note_txt = str nn, note_norm = str nn, part_number = str ''7009'',
      drawing_no = str ''7009'', change = str ''0'', quantity = q,
      flag_multiline_en = False, flag_note_used = False\<rparr>"

definition example_sheets :: "rat sheet list" where
  "example_sheets =
     [(str ''A'', [top_entry [] (Some (PInt 3)), top_entry [] (Some (PInt (- 3))),
                   top_entry ''lhd'' None], [], []),
      (str ''B'', [top_entry ''rhd'' (Some (PInt 4))], [], [])]"

text \<open>Two variants in which the key of the \<open>lhd\<close> entry of variant 0 is sighted
  again in variant 1, and one variant that lists a part twice, with the quantities 4
  and 0.5.\<close>

definition cross_sheets :: "rat sheet list" where
  "cross_sheets =
     [(str ''A'', [top_entry ''lhd'' (Some (PInt 1))], [], []),
      (str ''B'', [top_entry ''rhd'' (Some (PInt 4)), top_entry ''lhd'' (Some (PInt 2))],
       [], [])]"

definition mixed_sheets :: "rat sheet list" where
  "mixed_sheets =
     [(str ''A'', [top_entry [] (Some (PInt 4)), top_entry [] (Some (PFloat (1 / 2)))],
       [], [])]"

section \<open>Facts about the text functions\<close>


lemmas text_eval =
  str_def py_strip_def py_isspace_def strip_sign_def is_digit_def py_decimal_def
  ascii_isdigit_def is_ascii_def ascii_lower_def ascii_upper_def ascii_isupper_def
  ascii_islower_def ascii_isalpha_def digits_value_def cut_def Let_def

lemma py_int_error: "py_int L s = Inl e \<Longrightarrow> e = ValueError"
  by (auto simp: py_int_def Let_def split: prod.splits if_splits)

lemma py_float_error: "py_float L s = Inl e \<Longrightarrow> e = ValueError"
  by (auto simp: py_float_def split: option.splits)

lemma parse_quantity_cases:
  "parse_quantity L qt =
     Inr (if qt = [] then None
          else case py_int L qt of
                 Inr n \<Rightarrow> Some (PInt n)
               | Inl e \<Rightarrow> (case py_float L qt of Inr x \<Rightarrow> Some (PFloat x) | Inl e' \<Rightarrow> None))"
proof (cases "qt = []")
  case True
  then show ?thesis by (simp add: parse_quantity_def)
next
  case False
  show ?thesis
  proof (cases "py_int L qt")
    case (Inl e)
    then have e: "e = ValueError" by (rule py_int_error)
    show ?thesis
    proof (cases "py_float L qt")
      case (Inl e')
      then have "e' = ValueError" by (rule py_float_error)
      with Inl \<open>py_int L qt = Inl e\<close> e False show ?thesis
        by (simp add: parse_quantity_def)
    next
      case (Inr x)
      with \<open>py_int L qt = Inl e\<close> e False show ?thesis
        by (simp add: parse_quantity_def)
    qed
  next
    case (Inr n)
    with False show ?thesis by (simp add: parse_quantity_def)
  qed
qed

lemma int_of_2: "py_int L (str ''2'') = Inr 2"
  by (auto simp: py_int_def text_eval)

lemma int_of_NA: "py_int L (str ''N/A'') = Inl ValueError"
  by (simp add: py_int_def text_eval)

lemma float_of_NA: "py_float L (str ''N/A'') = Inl ValueError"
  by (simp add: py_float_def float_syntax_def text_eval)

lemma runs_empty_iff: "runs P cur s = [] \<longleftrightarrow> cur = [] \<and> (\<forall>c\<in>set s. \<not> P c)"
  by (induction s arbitrary: cur) auto

lemma runs_last:
  "list_all P cur \<Longrightarrow> runs P cur s \<noteq> [] \<Longrightarrow>
   \<exists>pre post. cur @ s = pre @ last (runs P cur s) @ post \<and> last (runs P cur s) \<noteq> [] \<and>
     list_all P (last (runs P cur s)) \<and> (\<forall>c\<in>set post. \<not> P c) \<and> (pre = [] \<or> \<not> P (last pre))"
proof (induction s arbitrary: cur)
  case Nil
  then show ?case by (auto intro: exI[of _ "[]"])
next
  case (Cons c cs)
  show ?case
  proof (cases "P c")
    case True
    with Cons.prems have "list_all P (cur @ [c])" "runs P (cur @ [c]) cs \<noteq> []" by auto
    from Cons.IH[OF this] True show ?thesis by simp
  next
    case False
    show ?thesis
    proof (cases "runs P [] cs = []")
      case True
      with False Cons.prems have cur: "cur \<noteq> []" and l: "last (runs P cur (c # cs)) = cur"
        by auto
      from True have "\<forall>x\<in>set cs. \<not> P x" by (simp add: runs_empty_iff)
      with False have "\<forall>x\<in>set (c # cs). \<not> P x" by simp
      with cur l Cons.prems(1) show ?thesis
        by (intro exI[of _ "[]"] exI[of _ "c # cs"]) simp
    next
      case ne: False
      have "list_all P []" by simp
      from Cons.IH[OF this ne] obtain pre post where
        pp: "cs = pre @ last (runs P [] cs) @ post" "last (runs P [] cs) \<noteq> []"
            "list_all P (last (runs P [] cs))" "\<forall>c\<in>set post. \<not> P c"
            "pre = [] \<or> \<not> P (last pre)" by auto
      from False ne have l: "last (runs P cur (c # cs)) = last (runs P [] cs)" by auto
      have "cur @ c # cs = (cur @ c # pre) @ last (runs P [] cs) @ post" using pp(1) by simp
      moreover have "\<not> P (last (cur @ c # pre))" using pp(5) False by auto
      ultimately show ?thesis using pp l by (metis append_is_Nil_conv list.distinct(1))
    qed
  qed
qed

section \<open>Facts about the regular expressions\<close>

lemma nullable_lang: "nullable r \<longleftrightarrow> [] \<in> lang r"
  by (induction r) (auto intro: star.intros)

lemma star_cons:
  "c # s \<in> star A \<longleftrightarrow> (\<exists>u v. s = u @ v \<and> c # u \<in> A \<and> v \<in> star A)"
proof
  assume "c # s \<in> star A"
  then show "\<exists>u v. s = u @ v \<and> c # u \<in> A \<and> v \<in> star A"
  proof (induction "c # s" arbitrary: s rule: star.induct)
    case (star_app u v)
    show ?case
    proof (cases u)
      case Nil
      with star_app show ?thesis by simp
    next
      case (Cons d u')
      with star_app show ?thesis by auto
    qed
  qed
next
  assume "\<exists>u v. s = u @ v \<and> c # u \<in> A \<and> v \<in> star A"
  then obtain u v where "s = u @ v" "c # u \<in> A" "v \<in> star A" by blast
  then have "(c # u) @ v \<in> star A" by (intro star.star_app)
  with \<open>s = u @ v\<close> show "c # s \<in> star A" by simp
qed

lemma seq_cons:
  "c # s \<in> lang (Seq r1 r2) \<longleftrightarrow>
     (\<exists>u v. s = u @ v \<and> c # u \<in> lang r1 \<and> v \<in> lang r2) \<or> ([] \<in> lang r1 \<and> c # s \<in> lang r2)"
proof
  assume "c # s \<in> lang (Seq r1 r2)"
  then obtain u v where uv: "c # s = u @ v" "u \<in> lang r1" "v \<in> lang r2" by auto
  show "(\<exists>u v. s = u @ v \<and> c # u \<in> lang r1 \<and> v \<in> lang r2) \<or> ([] \<in> lang r1 \<and> c # s \<in> lang r2)"
  proof (cases u)
    case Nil
    with uv show ?thesis by simp
  next
    case (Cons d u')
    with uv have "s = u' @ v" "c # u' \<in> lang r1" by auto
    with uv(3) show ?thesis by blast
  qed
next
  assume "(\<exists>u v. s = u @ v \<and> c # u \<in> lang r1 \<and> v \<in> lang r2) \<or> ([] \<in> lang r1 \<and> c # s \<in> lang r2)"
  then show "c # s \<in> lang (Seq r1 r2)"
  proof
    assume "\<exists>u v. s = u @ v \<and> c # u \<in> lang r1 \<and> v \<in> lang r2"
    then obtain u v where "s = u @ v" "c # u \<in> lang r1" "v \<in> lang r2" by blast
    then have "c # s = (c # u) @ v \<and> c # u \<in> lang r1 \<and> v \<in> lang r2" by simp
    then show ?thesis unfolding lang.simps by blast
  next
    assume "[] \<in> lang r1 \<and> c # s \<in> lang r2"
    then have "c # s = [] @ (c # s) \<and> [] \<in> lang r1 \<and> c # s \<in> lang r2" by simp
    then show ?thesis unfolding lang.simps by blast
  qed
qed

lemma deriv_lang: "s \<in> lang (deriv c r) \<longleftrightarrow> c # s \<in> lang r"
proof (induction r arbitrary: s)
  case (Seq r1 r2)
  have "s \<in> lang (deriv c (Seq r1 r2)) \<longleftrightarrow>
     (\<exists>u v. s = u @ v \<and> u \<in> lang (deriv c r1) \<and> v \<in> lang r2) \<or>
     (nullable r1 \<and> s \<in> lang (deriv c r2))"
    by auto
  then show ?case unfolding seq_cons Seq nullable_lang .
next
  case (Star r)
  then show ?case by (auto simp: star_cons)
qed auto

lemma rx_fullmatch_lang: "rx_fullmatch r s \<longleftrightarrow> s \<in> lang r"
  by (induction s arbitrary: r) (simp_all add: nullable_lang deriv_lang)

lemma star_atom: "s \<in> star {[c] | c. P c} \<longleftrightarrow> list_all P s"
proof
  assume "s \<in> star {[c] | c. P c}"
  then show "list_all P s" by (induction rule: star.induct) auto
next
  assume "list_all P s"
  then show "s \<in> star {[c] | c. P c}"
  proof (induction s)
    case Nil
    show ?case by (rule star.star_nil)
  next
    case (Cons a s)
    then have "[a] \<in> {[c] | c. P c}" "s \<in> star {[c] | c. P c}" by auto
    then have "[a] @ s \<in> star {[c] | c. P c}" by (rule star.star_app)
    then show ?case by simp
  qed
qed

lemma lang_plus_atom: "s \<in> lang (Plus (Atom P)) \<longleftrightarrow> s \<noteq> [] \<and> list_all P s"
proof
  assume "s \<in> lang (Plus (Atom P))"
  then obtain u v where "s = u @ v" "u \<in> lang (Atom P)" "v \<in> star (lang (Atom P))"
    by (auto simp: Plus_def)
  then show "s \<noteq> [] \<and> list_all P s" by (auto simp: star_atom)
next
  assume a: "s \<noteq> [] \<and> list_all P s"
  then obtain c v where s: "s = c # v" by (cases s) auto
  with a have "[c] \<in> lang (Atom P)" "v \<in> lang (Star (Atom P))" by (auto simp: star_atom)
  then have "[c] @ v \<in> lang (Seq (Atom P) (Star (Atom P)))" unfolding lang.simps(4) by blast
  with s show "s \<in> lang (Plus (Atom P))" by (simp add: Plus_def)
qed

lemma lang_item_index:
  "s \<in> lang (ITEM_INDEX_REGEX L) \<longleftrightarrow>
     numeric_group L s \<or> (\<exists>a b. s = a @ 46 # b \<and> numeric_group L a \<and> numeric_group L b)"
proof -
  have "s \<in> lang (ITEM_INDEX_REGEX L) \<longleftrightarrow>
     (\<exists>u v. s = u @ v \<and> u \<in> lang (Plus (Atom (is_digit L))) \<and>
        (v = [] \<or> (\<exists>w. v = 46 # w \<and> w \<in> lang (Plus (Atom (is_digit L))))))"
    unfolding ITEM_INDEX_REGEX_def Opt_def by auto
  then show ?thesis
    unfolding lang_plus_atom numeric_group_def by auto
qed

lemma dot_not_digit: "\<not> is_digit L 46" "\<not> is_digit L 10"
  by (simp_all add: is_digit_def py_decimal_def ascii_isdigit_def is_ascii_def)

lemma cut_no: "\<forall>c\<in>set s. \<not> P c \<Longrightarrow> cut P s = (s, None)"
proof -
  assume a: "\<forall>c\<in>set s. \<not> P c"
  then have d: "dropWhile (\<lambda>c. \<not> P c) s = []" and t: "takeWhile (\<lambda>c. \<not> P c) s = s"
    by simp_all
  show ?thesis unfolding cut_def Let_def d t by simp
qed

lemma cut_at: "\<forall>c\<in>set a. \<not> P c \<Longrightarrow> P d \<Longrightarrow> cut P (a @ d # b) = (a, Some b)"
  by (simp add: cut_def Let_def takeWhile_append2 dropWhile_append2)

lemma cut_SomeD: "cut P s = (a, Some b) \<Longrightarrow> \<exists>d. s = a @ d # b \<and> P d"
  apply (auto simp: cut_def Let_def split: list.splits)
  by (metis dropWhile_eq_Cons_conv hd_dropWhile list.sel(1) takeWhile_dropWhile_id)

lemma cut_NoneD: "cut P s = (a, None) \<Longrightarrow> a = s"
  by (auto simp: cut_def Let_def dropWhile_eq_Nil_conv takeWhile_eq_all_conv split: list.splits)

lemma spec_dotted_decimal_lang:
  "spec_dotted_decimal L s \<longleftrightarrow> s \<in> lang (ITEM_INDEX_REGEX L)"
proof
  assume sd: "spec_dotted_decimal L s"
  obtain a ob where c: "cut (\<lambda>c. c = 46) s = (a, ob)" by (cases "cut (\<lambda>c. c = 46) s")
  show "s \<in> lang (ITEM_INDEX_REGEX L)"
  proof (cases ob)
    case None
    with c sd cut_NoneD[of _ s a] show ?thesis
      by (auto simp: spec_dotted_decimal_def lang_item_index)
  next
    case (Some b)
    with c cut_SomeD[of _ s a b] have "s = a @ 46 # b" by auto
    with c sd Some show ?thesis
      by (auto simp: spec_dotted_decimal_def lang_item_index)
  qed
next
  assume "s \<in> lang (ITEM_INDEX_REGEX L)"
  then consider "numeric_group L s"
    | a b where "s = a @ 46 # b" "numeric_group L a" "numeric_group L b"
    by (auto simp: lang_item_index)
  then show "spec_dotted_decimal L s"
  proof cases
    case 1
    then have "\<forall>c\<in>set s. \<not> c = 46" using dot_not_digit(1)[of L]
      by (auto simp: numeric_group_def list_all_iff)
    then have "cut (\<lambda>c. c = 46) s = (s, None)" by (rule cut_no)
    with 1 show ?thesis by (simp add: spec_dotted_decimal_def)
  next
    case 2
    then have "\<forall>c\<in>set a. \<not> c = 46" using dot_not_digit(1)[of L]
      by (auto simp: numeric_group_def list_all_iff)
    then have "cut (\<lambda>c. c = 46) (a @ 46 # b) = (a, Some b)" by (rule cut_at) simp
    with 2 show ?thesis by (simp add: spec_dotted_decimal_def)
  qed
qed

lemma re_match_anchored_lang:
  "re_match_anchored r s \<longleftrightarrow> s \<in> lang r \<or> (\<exists>t. s = t @ [10] \<and> t \<in> lang r)"
  by (auto simp: re_match_anchored_def rx_fullmatch_lang Opt_def)

lemma py_strip_last: "py_strip s \<noteq> [] \<Longrightarrow> \<not> py_isspace (last (py_strip s))"
proof -
  assume ne: "py_strip s \<noteq> []"
  let ?t = "dropWhile py_isspace (rev (dropWhile py_isspace s))"
  from ne have "?t \<noteq> []" by (simp add: py_strip_def)
  then have "\<not> py_isspace (hd ?t)" by (rule hd_dropWhile)
  moreover have "last (py_strip s) = hd ?t" using \<open>?t \<noteq> []\<close>
    by (simp add: py_strip_def last_rev)
  ultimately show ?thesis by simp
qed

lemma clean_cell_last: "clean_cell c \<noteq> [] \<Longrightarrow> last (clean_cell c) \<noteq> 10"
proof -
  assume ne: "clean_cell c \<noteq> []"
  then obtain t where c: "c = Some t" by (cases c) (auto simp: clean_cell_def)
  with ne py_strip_last[of "map (\<lambda>c. if c = 10 then 32 else c) t"]
  have "\<not> py_isspace (last (clean_cell c))" by (simp add: clean_cell_def)
  then show ?thesis by (auto simp: py_isspace_def)
qed

lemma item_index_match_clean:
  "re_match_anchored (ITEM_INDEX_REGEX L) (clean_cell c) \<longleftrightarrow> spec_dotted_decimal L (clean_cell c)"
proof -
  have "\<not> (\<exists>t. clean_cell c = t @ [10] \<and> t \<in> lang (ITEM_INDEX_REGEX L))"
  proof
    assume "\<exists>t. clean_cell c = t @ [10] \<and> t \<in> lang (ITEM_INDEX_REGEX L)"
    then obtain t where t: "clean_cell c = t @ [10]" by blast
    then have "clean_cell c \<noteq> []" by simp
    from clean_cell_last[OF this] t show False by simp
  qed
  then show ?thesis unfolding re_match_anchored_lang spec_dotted_decimal_lang by blast
qed

section \<open>Facts about the row normalizer\<close>

lemma normalize_row_SomeD:
  assumes "normalize_row L thr cmap deleted_idxs row = Inr (Some e)"
  shows "\<exists>c0 rest. row = c0 # rest \<and> clean_cell c0 \<noteq> [] \<and>
           re_match_anchored (ITEM_INDEX_REGEX L) (clean_cell c0) \<and>
           (\<forall>n. parse_index_int L (clean_cell c0) = Inr (Some n) \<longrightarrow> n \<notin> deleted_idxs)"
    and "change e = revision_of L (clean_at row (c_change cmap))"
    and "parse_quantity L (clean_at row (c_quantity cmap)) = Inr (quantity e)"
    and "(part_name e, flag_multiline_en e) =
           build_part_name L thr
             (raw_lines (cell_at row (case c_part_name cmap of None \<Rightarrow> 19 | Some i \<Rightarrow> i)))"
    and "part_name e \<noteq> []"
  using assms
  by (auto simp: normalize_row_def Let_def
           split: list.splits if_splits sum.splits option.splits prod.splits)

lemma normalize_rows_origin:
  "normalize_rows L thr cmap d rows = Inr es \<Longrightarrow> e \<in> set es \<Longrightarrow>
   \<exists>row\<in>set rows. normalize_row L thr cmap d row = Inr (Some e)"
proof (induction rows arbitrary: es)
  case Nil
  then show ?case by simp
next
  case (Cons row rows)
  from Cons.prems(1) obtain r es' where
    r: "normalize_row L thr cmap d row = Inr r" and
    es': "normalize_rows L thr cmap d rows = Inr es'" and
    es: "es = (case r of None \<Rightarrow> [] | Some e \<Rightarrow> [e]) @ es'"
    by (auto split: sum.splits)
  from Cons.prems(2) es consider "r = Some e" | "e \<in> set es'"
    by (auto split: option.splits)
  then show ?case
  proof cases
    case 1
    with r show ?thesis by simp
  next
    case 2
    from Cons.IH[OF es' 2] show ?thesis by auto
  qed
qed

lemma normalize_rows_filter:
  assumes "\<And>row. \<not> P row \<Longrightarrow> normalize_row L thr cmap d row = Inr None"
  shows "normalize_rows L thr cmap d (filter P rows) = normalize_rows L thr cmap d rows"
  by (induction rows) (auto simp: assms split: sum.splits)

lemma convert_rows_origin:
  "convert_rows L pg cm rows = Inr es \<Longrightarrow> e \<in> set es \<Longrightarrow>
   \<exists>row\<in>set rows. convert_row L pg cm row = Inr (Some e)"
proof (induction rows arbitrary: es)
  case Nil
  then show ?case by simp
next
  case (Cons row rows)
  from Cons.prems(1) obtain r es' where
    r: "convert_row L pg cm row = Inr r" and
    es': "convert_rows L pg cm rows = Inr es'" and
    es: "es = (case r of None \<Rightarrow> [] | Some e \<Rightarrow> [e]) @ es'"
    by (auto split: sum.splits)
  from Cons.prems(2) es consider "r = Some e" | "e \<in> set es'"
    by (auto split: option.splits)
  then show ?case
  proof cases
    case 1
    with r show ?thesis by simp
  next
    case 2
    from Cons.IH[OF es' 2] show ?thesis by auto
  qed
qed

lemma parse_page_origin:
  assumes "parse_page L pg = Inr es" and "e \<in> set es"
  shows "\<exists>d tbl tbls. get_deleted_indices L pg = Inr d \<and> extract_tables pg = tbl # tbls \<and>
           find_header L tbl < length tbl \<and>
           (\<exists>row\<in>set (drop (find_header L tbl + 1) tbl).
              normalize_row L CUT_THRESHOLD (map_columns L (tbl ! find_header L tbl)) d row
                = Inr (Some e))"
proof -
  from assms(1) obtain d where d: "get_deleted_indices L pg = Inr d"
    by (auto simp: parse_page_def split: sum.splits)
  from assms d obtain tbl tbls where t: "extract_tables pg = tbl # tbls"
    by (cases "extract_tables pg") (auto simp: parse_page_def)
  from assms(1) d t have h: "find_header L tbl < length tbl"
    by (auto simp: parse_page_def Let_def split: if_splits)
  with assms(1) d t have
    "normalize_rows L CUT_THRESHOLD (map_columns L (tbl ! find_header L tbl)) d
       (drop (find_header L tbl + 1) tbl) = Inr es"
    by (simp add: parse_page_def Let_def)
  from normalize_rows_origin[OF this assms(2)] d t h show ?thesis by blast
qed

lemma parse_bom_pdf_origin:
  "parse_bom_pdf L pages = Inr es \<Longrightarrow> e \<in> set es \<Longrightarrow>
   \<exists>pg\<in>set pages. \<exists>es'. parse_page L pg = Inr es' \<and> e \<in> set es'"
proof (induction pages arbitrary: es)
  case Nil
  then show ?case by simp
next
  case (Cons pg pages)
  from Cons.prems(1) obtain es1 es2 where
    p: "parse_page L pg = Inr es1" and r: "parse_bom_pdf L pages = Inr es2" and
    es: "es = es1 @ es2"
    by (auto split: sum.splits)
  from Cons.prems(2) es consider "e \<in> set es1" | "e \<in> set es2" by auto
  then show ?case
  proof cases
    case 1
    with p show ?thesis by auto
  next
    case 2
    from Cons.IH[OF r 2] show ?thesis by auto
  qed
qed

lemma convert_page_origin:
  assumes "convert_page L n pg = Inr es" and "e \<in> set es"
  shows "\<exists>tbl tbls. extract_tables pg = tbl # tbls \<and> convert_find_header L tbl < length tbl \<and>
           (\<exists>row\<in>set (drop (convert_find_header L tbl + 1) tbl).
              convert_row L n (convert_map_columns L (tbl ! convert_find_header L tbl)) row
                = Inr (Some e))"
proof -
  from assms obtain tbl tbls where t: "extract_tables pg = tbl # tbls"
    by (cases "extract_tables pg") (auto simp: convert_page_def)
  from assms(1) t have h: "convert_find_header L tbl < length tbl"
    by (auto simp: convert_page_def Let_def split: if_splits)
  with assms(1) t have
    "convert_rows L n (convert_map_columns L (tbl ! convert_find_header L tbl))
       (drop (convert_find_header L tbl + 1) tbl) = Inr es"
    by (simp add: convert_page_def Let_def)
  from convert_rows_origin[OF this assms(2)] t h show ?thesis by blast
qed

lemma flagged_row_skipped:
  "flagged L deleted row \<Longrightarrow> normalize_row L thr cmap deleted row = Inr None"
  by (auto simp: flagged_def normalize_row_def Let_def split: list.splits sum.splits option.splits)

lemma convert_row_SomeD:
  "convert_row L pg cm row = Inr (Some e) \<Longrightarrow>
   \<exists>c0 rest. row = c0 # rest \<and> e_item_no e = clean_cell c0 \<and> clean_cell c0 \<noteq> [] \<and>
     re_match_anchored (ITEM_INDEX_REGEX L) (clean_cell c0)"
  by (auto simp: convert_row_def Let_def split: list.splits if_splits)

lemma bad_index_skipped:
  "clean_cell c0 = [] \<or> \<not> re_match_anchored (ITEM_INDEX_REGEX L) (clean_cell c0) \<Longrightarrow>
   normalize_row L thr cmap deleted (c0 # rest) = Inr None \<and>
   convert_row L pg cm (c0 # rest) = Inr None"
  by (auto simp: normalize_row_def convert_row_def Let_def)

section \<open>Facts about header detection and the metadata scan\<close>

lemma first_index_from_Some:
  "first_index_from k P xs = Some i \<Longrightarrow>
   k \<le> i \<and> i - k < length xs \<and> P (xs ! (i - k)) \<and> (\<forall>j<i - k. \<not> P (xs ! j))"
proof (induction xs arbitrary: k)
  case Nil
  then show ?case by simp
next
  case (Cons x xs)
  show ?case
  proof (cases "P x")
    case True
    with Cons.prems show ?thesis by simp
  next
    case False
    with Cons.prems have "first_index_from (Suc k) P xs = Some i" by simp
    from Cons.IH[OF this] have *: "Suc k \<le> i" "i - Suc k < length xs" "P (xs ! (i - Suc k))"
      "\<forall>j<i - Suc k. \<not> P (xs ! j)" by auto
    then have ik: "i - k = Suc (i - Suc k)" by simp
    have "\<forall>j<i - k. \<not> P ((x # xs) ! j)"
    proof (intro allI impI)
      fix j assume "j < i - k"
      then show "\<not> P ((x # xs) ! j)" using False * ik by (cases j) auto
    qed
    with * ik show ?thesis by simp
  qed
qed

lemma first_index_from_None: "first_index_from k P xs = None \<longleftrightarrow> (\<forall>x\<in>set xs. \<not> P x)"
  by (induction xs arbitrary: k) auto

lemma header_index_char:
  assumes "h = (case first_index_from 0 P (take 6 tbl) of None \<Rightarrow> 2 | Some i \<Rightarrow> i)"
  shows "((\<exists>i<length tbl. i < 6 \<and> P (tbl ! i)) \<longrightarrow>
            h < length tbl \<and> h < 6 \<and> P (tbl ! h) \<and> (\<forall>j<h. \<not> P (tbl ! j)))
         \<and> (\<not> (\<exists>i<length tbl. i < 6 \<and> P (tbl ! i)) \<longrightarrow> h = 2)"
proof (cases "first_index_from 0 P (take 6 tbl)")
  case None
  then have "\<forall>x\<in>set (take 6 tbl). \<not> P x" by (simp add: first_index_from_None)
  then have "\<not> (\<exists>i<length tbl. i < 6 \<and> P (tbl ! i))"
    by (auto simp: set_conv_nth)
  with None assms show ?thesis by auto
next
  case (Some i)
  from first_index_from_Some[OF Some]
  have *: "i < length (take 6 tbl)" "P (take 6 tbl ! i)" "\<forall>j<i. \<not> P (take 6 tbl ! j)" by auto
  then have "i < length tbl" "i < 6" "P (tbl ! i)" "\<forall>j<i. \<not> P (tbl ! j)" by auto
  with Some assms show ?thesis by auto
qed

lemma drop_rows_after: "drop (Suc h) tbl = map (\<lambda>i. tbl ! i) [Suc h..<length tbl]"
  by (simp add: list_eq_iff_nth_eq)

lemma scan_lines_skip:
  "\<forall>l\<in>set pre. \<not> is_anchor L l \<Longrightarrow>
   scan_lines L prev (pre @ rest) = scan_lines L (if pre = [] then prev else Some (last pre)) rest"
  by (induction pre arbitrary: prev) auto

lemma short_split: "length (py_split p) < 2 \<Longrightarrow> (case py_split p of p0 # p1 # x \<Rightarrow> f p0 p1 | _ \<Rightarrow> g) = g"
  by (auto split: list.splits)

section \<open>Facts about the reconciler\<close>

lemma fold_err_append:
  "fold_err f (xs @ ys) s = (case fold_err f xs s of Inl e \<Rightarrow> Inl e | Inr s' \<Rightarrow> fold_err f ys s')"
  by (induction xs arbitrary: s) (auto split: sum.splits)

lemma fold_err_map: "fold_err f (map g xs) s = fold_err (\<lambda>x. f (g x)) xs s"
  by (induction xs arbitrary: s) (auto split: sum.splits)

lemma fold_err_enumerate: "fold_err (\<lambda>(j, r). f r) (enumerate k xs) s = fold_err f xs s"
  by (induction xs arbitrary: k s) (auto split: sum.splits)

lemma nested_flat:
  "fold_err (\<lambda>(vi, sh) st. fold_err (sight L n vi) (ents_of sh) st) (enumerate v sheets) st
   = fold_err (step L n) (numbered v s sheets) st"
proof (induction sheets arbitrary: v s st)
  case Nil
  then show ?case by simp
next
  case (Cons sh sheets)
  have a: "fold_err (step L n) (map (\<lambda>(j, r). (v, s + j, r)) (enumerate 0 (ents_of sh))) st
        = fold_err (sight L n v) (ents_of sh) st"
    by (simp add: fold_err_map step_def case_prod_beta fold_err_enumerate[of "sight L n v" 0, unfolded case_prod_beta])
  note ih = Cons [of "Suc v" _ "s + length (ents_of sh)"]
  from a show ?case
    by (simp add: fold_err_append ih split: sum.splits)
qed

lemma enumerate_seq:
  "map (\<lambda>(j, r). k + j) (enumerate 0 xs) = [k..<k + length xs]"
  by (rule nth_equalityI) (simp_all add: nth_enumerate_eq)

lemma numbered_seq:
  "map (\<lambda>(v, s, r). s) (numbered v s sheets) = [s..<s + length (numbered v s sheets)]"
proof (induction sheets arbitrary: v s)
  case Nil
  then show ?case by simp
next
  case (Cons sh sheets)
  let ?n = "length (ents_of sh)"
  let ?rest = "numbered (Suc v) (s + ?n) sheets"
  let ?f = "\<lambda>(v, s, r). s"
  have "map ?f (map (\<lambda>(j, r). (v, s + j, r)) (enumerate 0 (ents_of sh)))
        = map (\<lambda>(j, r). s + j) (enumerate 0 (ents_of sh))"
    by (simp add: case_prod_beta)
  then have a: "map ?f (map (\<lambda>(j, r). (v, s + j, r)) (enumerate 0 (ents_of sh))) = [s..<s + ?n]"
    by (simp only: enumerate_seq)
  have l: "length (numbered v s (sh # sheets)) = ?n + length ?rest"
    by simp
  have "map ?f (numbered v s (sh # sheets))
        = map ?f (map (\<lambda>(j, r). (v, s + j, r)) (enumerate 0 (ents_of sh))) @ map ?f ?rest"
    by (simp only: numbered.simps map_append)
  also have "\<dots> = [s..<s + ?n] @ [s + ?n..<s + ?n + length ?rest]"
    by (simp only: a Cons)
  also have "\<dots> = [s..<s + ?n + length ?rest]"
    by (rule upt_add_eq_append [symmetric]) simp
  finally show ?case by (simp only: l add.assoc)
qed

lemma qtys_extend [simp]: "qtys (entry.extend r \<lparr>qtys = q\<rparr>) = q"
  by (simp add: entry.extend_def)

lemma sight_step:
  assumes "sight L n v r st = Inr st'" and "wf_state n st"
  shows "wf_state n st'"
    and "seq_counter st' = Suc (seq_counter st)"
    and "dom (parts st') = insert (make_key r v (seq_counter st)) (dom (parts st))"
    and "v < n"
    and "vi < n \<Longrightarrow> Inr (slot_of st' k vi) =
           (if make_key r v (seq_counter st) = k \<and> v = vi
            then add_quantity L (slot_of st k vi) (quantity r) else Inr (slot_of st k vi))"
    and "set (initial_order st') = insert (make_key r v (seq_counter st)) (set (initial_order st))"
    and "distinct (initial_order st) \<Longrightarrow> distinct (initial_order st')"
proof -
  let ?key = "make_key r v (seq_counter st)"
  let ?m = "case parts st ?key of None \<Rightarrow> entry.extend r \<lparr>qtys = replicate n None\<rparr> | Some m0 \<Rightarrow> m0"
  have len: "length (qtys ?m) = n" using assms(2)
    by (auto simp: wf_state_def split: option.splits)
  from assms(1) have v: "v < n" using len
    by (auto simp: sight_def Let_def split: if_splits)
  then show "v < n" .
  from assms(1) v len obtain slot where
    slot: "add_quantity L (qtys ?m ! v) (quantity r) = Inr slot" and
    st': "st' = \<lparr>parts = (parts st)(?key \<mapsto> ?m\<lparr>qtys := (qtys ?m)[v := slot]\<rparr>),
                 initial_order = (if ?key \<in> set (initial_order st) then initial_order st
                                  else initial_order st @ [?key]),
                 seq_counter = seq_counter st + 1\<rparr>"
    by (auto simp: sight_def Let_def split: sum.splits)
  show "wf_state n st'" using assms(2) len by (auto simp: st' wf_state_def)
  show "seq_counter st' = Suc (seq_counter st)" by (simp add: st')
  show "dom (parts st') = insert ?key (dom (parts st))" by (simp add: st')
  show "set (initial_order st') = insert ?key (set (initial_order st))"
    by (auto simp: st')
  show "distinct (initial_order st')" if "distinct (initial_order st)"
    using that by (simp add: st')
  have sl: "slot_of st ?key vi = qtys ?m ! vi" if "vi < n"
    using that by (auto simp: slot_of_def split: option.splits)
  show "Inr (slot_of st' k vi) =
           (if ?key = k \<and> v = vi
            then add_quantity L (slot_of st k vi) (quantity r) else Inr (slot_of st k vi))"
    if "vi < n"
  proof (cases "?key = k")
    case True
    show ?thesis
    proof (cases "v = vi")
      case True
      with \<open>?key = k\<close> slot sl[OF that] len that show ?thesis
        by (auto simp: st' slot_of_def)
    next
      case False
      with \<open>?key = k\<close> sl[OF that] len that show ?thesis
        by (auto simp: st' slot_of_def)
    qed
  next
    case False
    then show ?thesis by (simp add: st' slot_of_def)
  qed
qed

lemma upt_length_Cons: "[a..<a + length (x # xs)] = a # [Suc a..<Suc a + length xs]"
  by (subst upt_rec) simp

lemma fold_slots:
  assumes "fold_err (step L n) xs st = Inr st'" and "wf_state n st"
    and "map (\<lambda>(v, s, r). s) xs = [seq_counter st..<seq_counter st + length xs]"
    and "vi < n"
  shows "wf_state n st' \<and>
         dom (parts st') = dom (parts st) \<union> (\<lambda>(v, s, r). make_key r v s) ` set xs \<and>
         fold_err (\<lambda>q existing. add_quantity L existing q)
           (map (\<lambda>(v, s, r). quantity r)
              (filter (\<lambda>(v, s, r). v = vi \<and> make_key r v s = k) xs))
           (slot_of st k vi) = Inr (slot_of st' k vi) \<and>
         set (initial_order st') =
           set (initial_order st) \<union> (\<lambda>(v, s, r). make_key r v s) ` set xs \<and>
         (distinct (initial_order st) \<longrightarrow> distinct (initial_order st'))"
  using assms
proof (induction xs arbitrary: st)
  case Nil
  then show ?case by simp
next
  case (Cons x xs)
  obtain v s r where x: "x = (v, s, r)" by (cases x)
  from Cons.prems(3)
  have "s # map (\<lambda>(v, s, r). s) xs
        = seq_counter st # [Suc (seq_counter st)..<Suc (seq_counter st) + length xs]"
    by (simp only: x list.map prod.case upt_length_Cons)
  then have s: "s = seq_counter st"
    and rest: "map (\<lambda>(v, s, r). s) xs = [Suc (seq_counter st)..<Suc (seq_counter st) + length xs]"
    by simp_all
  from Cons.prems(1) x obtain st1 where
    st1: "sight L n v r st = Inr st1" and f: "fold_err (step L n) xs st1 = Inr st'"
    by (auto simp: step_def split: sum.splits)
  note ss = sight_step[OF st1 Cons.prems(2)]
  from rest ss(2) have rest': "map (\<lambda>(v, s, r). s) xs = [seq_counter st1..<seq_counter st1 + length xs]"
    by simp
  note ih = Cons.IH[OF f ss(1) rest' Cons.prems(4)]
  have d: "dom (parts st') = dom (parts st) \<union> (\<lambda>(v, s, r). make_key r v s) ` set (x # xs)"
    using ih ss(3) x s by auto
  have o: "set (initial_order st') =
           set (initial_order st) \<union> (\<lambda>(v, s, r). make_key r v s) ` set (x # xs)"
    using ih ss(6) x s by auto
  have di: "distinct (initial_order st) \<longrightarrow> distinct (initial_order st')"
    using ih ss(7) by simp
  have sl: "Inr (slot_of st1 k vi) =
           (if make_key r v (seq_counter st) = k \<and> v = vi
            then add_quantity L (slot_of st k vi) (quantity r) else Inr (slot_of st k vi))"
    by (rule ss(5)) (rule Cons.prems(4))
  have "fold_err (\<lambda>q existing. add_quantity L existing q)
           (map (\<lambda>(v, s, r). quantity r)
              (filter (\<lambda>(v, s, r). v = vi \<and> make_key r v s = k) (x # xs)))
           (slot_of st k vi) = Inr (slot_of st' k vi)"
  proof (cases "make_key r v (seq_counter st) = k \<and> v = vi")
    case True
    from sl have a: "add_quantity L (slot_of st k vi) (quantity r) = Inr (slot_of st1 k vi)"
      unfolding if_P[OF True] by simp
    from True have v1: "v = vi" and k1: "make_key r vi (seq_counter st) = k" by auto
    from ih have "fold_err (\<lambda>q existing. add_quantity L existing q)
           (map (\<lambda>(v, s, r). quantity r)
              (filter (\<lambda>(v, s, r). v = vi \<and> make_key r v s = k) xs))
           (slot_of st1 k vi) = Inr (slot_of st' k vi)" by simp
    with a show ?thesis by (simp add: x s v1 k1)
  next
    case False
    from sl have "slot_of st1 k vi = slot_of st k vi"
      unfolding if_not_P[OF False] by simp
    with False ih x s show ?thesis by auto
  qed
  with ih d o di show ?case by simp
qed

lemma build_parts_flat:
  "build_parts L sheets =
     fold_err (step L (length sheets)) (numbered 0 0 sheets)
       \<lparr>parts = Map.empty, initial_order = [], seq_counter = 0\<rparr>"
  unfolding build_parts_def by (rule nested_flat)

lemma build_parts_slots:
  assumes "build_parts L sheets = Inr st" and "vi < length sheets"
  shows "wf_state (length sheets) st"
    and "dom (parts st) = (\<lambda>(v, s, r). make_key r v s) ` set (numbered 0 0 sheets)"
    and "running_total L (sightings sheets k vi) = Inr (slot_of st k vi)"
    and "set (initial_order st) = dom (parts st)"
    and "distinct (initial_order st)"
proof -
  let ?st0 = "\<lparr>parts = Map.empty, initial_order = [], seq_counter = 0\<rparr> :: 'a rstate"
  have f: "fold_err (step L (length sheets)) (numbered 0 0 sheets) ?st0 = Inr st"
    using assms(1) by (simp add: build_parts_flat)
  have w: "wf_state (length sheets) ?st0" by (simp add: wf_state_def)
  have n: "map (\<lambda>(v, s, r). s) (numbered 0 0 sheets)
           = [seq_counter ?st0..<seq_counter ?st0 + length (numbered 0 0 sheets)]"
    using numbered_seq[of 0 0 sheets] by simp
  note m = fold_slots[OF f w n assms(2), of k]
  from m show "wf_state (length sheets) st" by simp
  from m show "dom (parts st) = (\<lambda>(v, s, r). make_key r v s) ` set (numbered 0 0 sheets)" by simp
  from m show "running_total L (sightings sheets k vi) = Inr (slot_of st k vi)"
    by (simp add: running_total_def sightings_def slot_of_def)
  from m show "set (initial_order st) = dom (parts st)" by simp
  from m show "distinct (initial_order st)" by simp
qed




lemma running_absent:
  "list_all (\<lambda>q. q = None) qs \<Longrightarrow>
   fold_err (\<lambda>q existing. add_quantity L existing q) qs ex = Inr ex"
  by (induction qs) (auto simp: add_quantity_def)

lemma sight_absent:
  assumes "quantity r = None" and "vi < n" and "wf_state n st"
  shows "\<exists>st'. sight L n vi r st = Inr st' \<and>
           parts st' = (parts st)(make_key r vi (seq_counter st) \<mapsto>
             (case parts st (make_key r vi (seq_counter st)) of
                None \<Rightarrow> entry.extend r \<lparr>qtys = replicate n None\<rparr>
              | Some m \<Rightarrow> m))"
proof -
  let ?key = "make_key r vi (seq_counter st)"
  let ?m = "case parts st ?key of None \<Rightarrow> entry.extend r \<lparr>qtys = replicate n None\<rparr> | Some m0 \<Rightarrow> m0"
  have len: "length (qtys ?m) = n" using assms(3)
    by (auto simp: wf_state_def split: option.splits)
  have "?m\<lparr>qtys := (qtys ?m)[vi := qtys ?m ! vi]\<rparr> = ?m" by simp
  with len assms(1,2) show ?thesis
    by (simp add: sight_def Let_def add_quantity_def)
qed

section \<open>The examples, evaluated\<close>

lemmas cell_eval = text_eval clean_cell_def py_str_def startswith_def py_lower_def

lemma example_map_columns: "map_columns L example_header = example_cmap"
  by (simp add: map_columns_def map_column_def example_header_def example_cmap_def cell_eval)

lemma example_is_header: "is_header_row L example_header"
  by (simp add: is_header_row_def example_header_def cell_eval)

lemma example_find_header: "find_header L [example_header, struck_row, example_row] = 0"
  by (simp add: find_header_def example_is_header)

lemma example_deleted: "get_deleted_indices L example_page = Inr {12}"
  by (simp add: get_deleted_indices_def example_page_def mark_deleted_def search_digits_def
        pure_red_def py_int_def text_eval)

lemma struck_index: "parse_index_int L (clean_cell (Some (str ''12.1''))) = Inr (Some 12)"
  by (simp add: parse_index_int_def py_int_def cell_eval)

lemma struck_flagged: "flagged L {12} struck_row"
  by (simp add: flagged_def struck_row_def struck_index)

lemma example_row_parts:
  "example_row \<noteq> []" "hd example_row = Some (str ''13'')"
  "clean_cell (Some (str ''13'')) = str ''13''" "str ''13'' \<noteq> []"
  "re_match_anchored (ITEM_INDEX_REGEX L) (str ''13'')"
  "parse_index_int L (str ''13'') = Inr (Some 13)"
  "detect_level example_row = 1"
  "raw_lines (cell_at example_row 3) = [str ''JP'', str ''BRACKET'']"
  "clean_at example_row (Some 2) = str ''7009''"
  "clean_at example_row (Some 4) = str ''2''"
  "clean_at example_row (Some 5) = str ''Rev 3 (was 2)''"
  "clean_at example_row None = []"
  by (simp_all add: example_row_def re_match_anchored_def ITEM_INDEX_REGEX_def Plus_def Opt_def
        parse_index_int_def py_int_def detect_level_def raw_lines_def stripped_lines_def
        cell_at_def clean_at_def py_splitlines_def py_islinebreak_def cell_eval)

lemma example_name:
  "build_part_name L 3 [str ''JP'', str ''BRACKET''] = (str ''Bracket'', False)"
  "str ''Bracket'' \<noteq> []"
  "contains (py_lower L (py_join [32] [str ''JP'', str ''BRACKET''])) (str ''outline drawing'')
     = False"
  "normalize_text L (str ''7009'') = str ''7009''"
  by (simp_all add: build_part_name_def english_content_def japanese_def flatten_def
        strip_non_ascii_def py_split_def fmt_def ascii_word_isupper_def capitalize_def
        normalize_text_def cell_eval)

lemma empty_note: "is_trivial_note L [] = False" "normalize_note L [] = []"
  by (simp_all add: is_trivial_note_def normalize_note_def)

lemma example_revision: "revision_of L (str ''Rev 3 (was 2)'') = str ''2''"
  by (simp add: revision_of_def findall_digits_def text_eval)

lemma example_quantity: "parse_quantity L (str ''2'') = Inr (Some (PInt 2))"
proof -
  have "str ''2'' \<noteq> []" by (simp add: str_def)
  then show ?thesis by (simp add: parse_quantity_cases int_of_2)
qed

lemma thirteen_not_12: "(13::int) \<notin> {12}" "(13::int) \<notin> {}"
  by simp_all

lemma example_row_entry:
  "normalize_row example_lib 3 example_cmap {12} example_row = Inr (Some example_entry)"
  unfolding normalize_row_def example_entry_def
  by (simp only: list.case_eq_if example_row_parts example_name empty_note example_revision
        example_quantity thirteen_not_12 Let_def example_cmap_def colmap.simps option.case
        prod.case sum.case if_True if_False simp_thms)

lemma example_parse_page: "parse_page example_lib example_page = Inr [example_entry]"
proof -
  have t: "extract_tables example_page = [[example_header, struck_row, example_row]]"
    by (simp add: example_page_def)
  have s: "normalize_row example_lib 3 example_cmap {12} struck_row = Inr None"
    by (rule flagged_row_skipped) (rule struck_flagged)
  show ?thesis
    by (simp add: parse_page_def example_deleted t example_find_header example_map_columns
          CUT_THRESHOLD_def s example_row_entry)
qed

lemma example_english_content:
  "3 \<le> thr \<Longrightarrow> english_content thr example_name_lines = [str ''SY BRACKET'']"
  by (simp add: english_content_def example_name_lines_def japanese_def text_eval)

lemma fmt_SY: "2 \<le> thr \<Longrightarrow> fmt thr (str ''SY'') = str ''SY''"
  by (simp add: fmt_def ascii_word_isupper_def text_eval)

lemma fmt_BRACKET: "thr < 7 \<Longrightarrow> fmt thr (str ''BRACKET'') = str ''Bracket''"
  by (simp add: fmt_def ascii_word_isupper_def capitalize_def text_eval)

lemma words_SY_BRACKET:
  "py_split (strip_non_ascii (flatten L [str ''SY BRACKET''])) = [str ''SY'', str ''BRACKET'']"
  by (simp add: flatten_def strip_non_ascii_def py_split_def text_eval)

lemma join_SY_Bracket: "py_strip (py_join [32] [str ''SY'', str ''Bracket'']) = str ''SY Bracket''"
  by (simp add: text_eval)

lemma example_build_name:
  "3 \<le> thr \<Longrightarrow> thr < 7 \<Longrightarrow>
   build_part_name L thr example_name_lines = (str ''SY Bracket'', False)"
  by (simp add: build_part_name_def example_english_content words_SY_BRACKET fmt_SY
        fmt_BRACKET join_SY_Bracket del: py_join.simps)

lemma example_name_row_parts:
  "example_name_row \<noteq> []" "hd example_name_row = Some (str ''14'')"
  "clean_cell (Some (str ''14'')) = str ''14''" "str ''14'' \<noteq> []"
  "re_match_anchored (ITEM_INDEX_REGEX L) (str ''14'')"
  "parse_index_int L (str ''14'') = Inr (Some 14)"
  "detect_level example_name_row = 1"
  "raw_lines (cell_at example_name_row 3) = example_name_lines"
  "clean_at example_name_row (Some 2) = str ''7011''"
  "clean_at example_name_row (Some 4) = str ''1''"
  "clean_at example_name_row (Some 5) = []"
  "clean_at example_name_row None = []"
  by (simp_all add: example_name_row_def example_name_lines_def re_match_anchored_def
        ITEM_INDEX_REGEX_def Plus_def Opt_def parse_index_int_def py_int_def detect_level_def
        raw_lines_def stripped_lines_def cell_at_def clean_at_def py_splitlines_def
        py_islinebreak_def cell_eval)

lemma example_name_row_text:
  "contains (py_lower example_lib (py_join [32] example_name_lines)) (str ''outline drawing'')
     = False"
  "normalize_text L (str ''7011'') = str ''7011''"
  "revision_of L [] = str ''0''"
  "str ''SY Bracket'' \<noteq> []"
  "(14::int) \<notin> {12}"
  by (simp_all add: example_name_lines_def example_lib_def normalize_text_def revision_of_def
        findall_digits_def cell_eval)

lemma example_quantity_1: "parse_quantity L (str ''1'') = Inr (Some (PInt 1))"
proof -
  have "str ''1'' \<noteq> []" by (simp add: str_def)
  moreover have "py_int L (str ''1'') = Inr 1" by (auto simp: py_int_def text_eval)
  ultimately show ?thesis by (simp add: parse_quantity_cases)
qed

lemma example_name_row_entry:
  "normalize_row example_lib 4 example_cmap {12} example_name_row =
     Inr (Some \<lparr>level = 1, part_name = str ''SY Bracket'', display_name = str ''SY Bracket'',
                note_txt = [], note_norm = [], part_number = str ''7011'',
                drawing_no = str ''7011'', change = str ''0'', quantity = Some (PInt 1),
                flag_multiline_en = False, flag_note_used = False\<rparr>)"
proof -
  have n: "build_part_name example_lib 4 example_name_lines = (str ''SY Bracket'', False)"
    by (rule example_build_name) simp_all
  show ?thesis
    unfolding normalize_row_def
    by (simp only: list.case_eq_if example_name_row_parts example_name_row_text n empty_note
          example_quantity_1 Let_def example_cmap_def colmap.simps option.case
          prod.case sum.case if_True if_False simp_thms)
qed

lemma example_text_lines:
  "stripped_lines (str ''X'' @ [10] @ str ''PRODUCT NUMBER CUSTOMER'' @ [10] @
                           str ''P1 C1'' @ [10] @ str ''PRODUCT NUMBER / CUSTOMER'')
   = [str ''X''] @ str ''PRODUCT NUMBER CUSTOMER'' # [str ''P1 C1'', str ''PRODUCT NUMBER / CUSTOMER'']"
  by (simp add: stripped_lines_def py_splitlines_def py_islinebreak_def text_eval)

lemma example_anchors:
  "is_anchor L (str ''PRODUCT NUMBER CUSTOMER'')"
  "is_anchor L (str ''PRODUCT NUMBER / CUSTOMER'')"
  "\<not> is_anchor L (str ''X'')"
  by (simp_all add: is_anchor_def py_upper_def startswith_def text_eval)

lemma example_tokens: "py_split (str ''X'') = [str ''X'']" "py_split (str ''P1 C1'') = [str ''P1'', str ''C1'']"
  by (simp_all add: py_split_def text_eval)

lemma example_numbered:
  "numbered 0 0 example_sheets =
     [(0, 0, top_entry [] (Some (PInt 3))), (0, 1, top_entry [] (Some (PInt (- 3)))),
      (0, 2, top_entry ''lhd'' None), (1, 3, top_entry ''rhd'' (Some (PInt 4)))]"
  by (simp add: example_sheets_def ents_of_def)

lemma example_keys:
  "make_key (top_entry nn q) vi s = str ''7009@@n='' @ str nn"
  by (simp add: make_key_def top_entry_def str_def)

lemma example_key_strings:
  "str ''7009@@n='' @ str [] = str ''7009@@n=''"
  "str ''7009@@n='' @ str ''lhd'' = str ''7009@@n=lhd''"
  "str ''7009@@n='' @ str ''rhd'' = str ''7009@@n=rhd''"
  "str ''7009@@n='' \<noteq> str ''7009@@n=lhd''"
  "str ''7009@@n='' \<noteq> str ''7009@@n=rhd''"
  "str ''7009@@n=lhd'' \<noteq> str ''7009@@n=rhd''"
  "str ''7009@@n=lhd'' \<noteq> str ''7009@@n=''"
  "str ''7009@@n=rhd'' \<noteq> str ''7009@@n=''"
  "str ''7009@@n=rhd'' \<noteq> str ''7009@@n=lhd''"
  by (simp_all add: str_def)

lemma example_sightings:
  "sightings example_sheets (str ''7009@@n='') 0 = [Some (PInt 3), Some (PInt (- 3))]"
  "sightings example_sheets (str ''7009@@n=lhd'') 0 = [None]"
  "sightings example_sheets (str ''7009@@n=lhd'') 1 = []"
  "sightings example_sheets (str ''7009@@n=rhd'') 0 = []"
  by (simp_all add: sightings_def example_numbered example_keys example_key_strings)
     (simp_all add: top_entry_def)

lemma example_entries:
  "quantity (top_entry nn q) = q" "level (top_entry nn q) = 1"
  "part_number (top_entry nn q) = str ''7009''" "part_name (top_entry nn q) = str ''Bracket''"
  "note_norm (top_entry nn q) = str nn"
  by (simp_all add: top_entry_def)

lemma example_length: "length example_sheets = 2"
  by (simp add: example_sheets_def)

lemma example_build: "\<exists>st. build_parts example_lib example_sheets = Inr st"
  unfolding build_parts_flat example_numbered example_length
  by (simp add: step_def sight_def example_keys example_key_strings example_entries
        add_quantity_def or_zero_def num_is_zero_def py_add_def Let_def)

section \<open>Claims\<close>

text \<open>
  C1. A data row whose item-index cell has a leading integer (as \<open>parse_index_int\<close>
  reads it) in the page's deletion set yields no entry, whatever its other cells hold:
  the row alone is skipped, the entries of a table are the same with such rows removed,
  and every entry of \<open>parse_bom_pdf\<close> comes from a data row of some page that is not
  such a row for the deletion set of that page.
\<close>

theorem deleted_rows_never_emitted:
  "(flagged L deleted row \<longrightarrow> normalize_row L thr cmap deleted row = Inr None)
   \<and> normalize_rows L thr cmap deleted (filter (\<lambda>r. \<not> flagged L deleted r) rows)
       = normalize_rows L thr cmap deleted rows
   \<and> (parse_bom_pdf L pages = Inr es \<longrightarrow> e \<in> set es \<longrightarrow>
        (\<exists>pg\<in>set pages. \<exists>d tbl tbls.
           get_deleted_indices L pg = Inr d \<and> extract_tables pg = tbl # tbls \<and>
           (\<exists>r\<in>set (drop (find_header L tbl + 1) tbl). \<not> flagged L d r \<and>
              normalize_row L CUT_THRESHOLD (map_columns L (tbl ! find_header L tbl)) d r
                = Inr (Some e))))"
proof (intro conjI impI)
  assume "flagged L deleted row"
  then show "normalize_row L thr cmap deleted row = Inr None" by (rule flagged_row_skipped)
next
  show "normalize_rows L thr cmap deleted (filter (\<lambda>r. \<not> flagged L deleted r) rows)
       = normalize_rows L thr cmap deleted rows"
    by (rule normalize_rows_filter) (simp add: flagged_row_skipped)
next
  assume "parse_bom_pdf L pages = Inr es" "e \<in> set es"
  from parse_bom_pdf_origin[OF this] obtain pg es' where
    pg: "pg \<in> set pages" "parse_page L pg = Inr es'" "e \<in> set es'"
    by blast
  from parse_page_origin[OF pg(2,3)] obtain d tbl tbls r where
    *: "get_deleted_indices L pg = Inr d" "extract_tables pg = tbl # tbls"
       "r \<in> set (drop (find_header L tbl + 1) tbl)"
       "normalize_row L CUT_THRESHOLD (map_columns L (tbl ! find_header L tbl)) d r = Inr (Some e)"
    by blast
  from *(4) have "\<not> flagged L d r" using flagged_row_skipped[of L d r] by auto
  with * pg(1) show "\<exists>pg\<in>set pages. \<exists>d tbl tbls.
           get_deleted_indices L pg = Inr d \<and> extract_tables pg = tbl # tbls \<and>
           (\<exists>r\<in>set (drop (find_header L tbl + 1) tbl). \<not> flagged L d r \<and>
              normalize_row L CUT_THRESHOLD (map_columns L (tbl ! find_header L tbl)) d r
                = Inr (Some e))"
    by blast
qed

theorem deleted_rows_never_emitted_witness:
  "flagged example_lib {12} struck_row
   \<and> normalize_row example_lib CUT_THRESHOLD example_cmap {12} struck_row = Inr None
   \<and> get_deleted_indices example_lib example_page = Inr {12}
   \<and> parse_bom_pdf example_lib [example_page] = Inr [example_entry]"
proof -
  have "parse_bom_pdf example_lib [example_page] = Inr [example_entry]"
    by (simp add: example_parse_page)
  with deleted_rows_never_emitted [of example_lib "{12}" struck_row CUT_THRESHOLD example_cmap]
    struck_flagged [of example_lib] example_deleted [of example_lib]
  show ?thesis by blast
qed





text \<open>
  C4 as stated fails. For the part-name cell with the lines U+90E8 U+54C1 U+540D,
  \<open>AS\<close>, \<open>SY BRACKET\<close> and threshold 4 the first two lines are dropped and
  \<open>SY BRACKET\<close> remains, but the name is not \<open>Sy Bracket\<close>.
\<close>

theorem example_name_counterexample:
  "build_part_name example_lib 4 example_name_lines \<noteq> (str ''Sy Bracket'', False)"
proof -
  have "build_part_name example_lib 4 example_name_lines = (str ''SY Bracket'', False)"
    by (rule example_build_name) simp_all
  moreover have "str ''SY Bracket'' \<noteq> str ''Sy Bracket''" by (simp add: str_def)
  ultimately show ?thesis by simp
qed

text \<open>
  C4, amended. At every threshold from 3 (the constant of the source) to 6, so also
  at 4, the lines that remain are \<open>SY BRACKET\<close> alone and the part name is
  \<open>SY Bracket\<close>, not flagged as multi-line: \<open>SY\<close> is all upper case and no
  longer than the threshold, so \<open>fmt\<close> keeps it as it is. An entry emitted from a row
  whose part-name cell has these lines carries that name and flag.
\<close>

theorem example_name_keeps_acronym:
  assumes "3 \<le> thr" and "thr < 7"
  shows "english_content thr example_name_lines = [str ''SY BRACKET'']
         \<and> build_part_name L thr example_name_lines = (str ''SY Bracket'', False)
         \<and> (normalize_row L thr cmap deleted row = Inr (Some e) \<longrightarrow>
              raw_lines (cell_at row (case c_part_name cmap of None \<Rightarrow> 19 | Some i \<Rightarrow> i))
                = example_name_lines \<longrightarrow>
              part_name e = str ''SY Bracket'' \<and> flag_multiline_en e = False)"
proof (intro conjI impI)
  show "english_content thr example_name_lines = [str ''SY BRACKET'']"
    using assms(1) by (rule example_english_content)
next
  show "build_part_name L thr example_name_lines = (str ''SY Bracket'', False)"
    using assms by (rule example_build_name)
next
  assume r: "normalize_row L thr cmap deleted row = Inr (Some e)"
    and l: "raw_lines (cell_at row (case c_part_name cmap of None \<Rightarrow> 19 | Some i \<Rightarrow> i))
              = example_name_lines"
  from normalize_row_SomeD(4)[OF r] l example_build_name[OF assms, of L]
  have "(part_name e, flag_multiline_en e) = (str ''SY Bracket'', False)" by simp
  then show "part_name e = str ''SY Bracket''" and "flag_multiline_en e = False" by simp_all
qed

theorem example_name_keeps_acronym_witness:
  "english_content 4 example_name_lines = [str ''SY BRACKET'']
   \<and> build_part_name example_lib 4 example_name_lines = (str ''SY Bracket'', False)
   \<and> build_part_name example_lib CUT_THRESHOLD example_name_lines = (str ''SY Bracket'', False)
   \<and> (\<exists>e. normalize_row example_lib 4 example_cmap {12} example_name_row = Inr (Some e) \<and>
          part_name e = str ''SY Bracket'' \<and> flag_multiline_en e = False)"
proof -
  have a: "(3::nat) \<le> 4" "(4::nat) < 7" "(3::nat) \<le> 3" "(3::nat) < 7" by simp_all
  obtain e where e: "normalize_row example_lib 4 example_cmap {12} example_name_row = Inr (Some e)"
    using example_name_row_entry by blast
  have l: "raw_lines (cell_at example_name_row
             (case c_part_name example_cmap of None \<Rightarrow> 19 | Some i \<Rightarrow> i)) = example_name_lines"
    by (simp add: example_cmap_def example_name_row_parts)
  from example_name_keeps_acronym [OF a(1,2), of example_lib example_cmap "{12}"
      example_name_row e] e l
  have 1: "english_content 4 example_name_lines = [str ''SY BRACKET'']"
    and 2: "build_part_name example_lib 4 example_name_lines = (str ''SY Bracket'', False)"
    and 3: "part_name e = str ''SY Bracket'' \<and> flag_multiline_en e = False"
    by blast+
  from example_name_keeps_acronym [OF a(3,4), of example_lib]
  have 4: "build_part_name example_lib CUT_THRESHOLD example_name_lines
             = (str ''SY Bracket'', False)"
    by (simp add: CUT_THRESHOLD_def)
  from 1 2 3 4 e show ?thesis by blast
qed

text \<open>
  C5. The text of the quantity cell is read as an integer first, else as a
  floating-point number, else the quantity is absent, and reading it never raises:
  the text \<open>2\<close> gives the integer 2, the empty text and the text \<open>N/A\<close> give an
  absent quantity. The quantity of an emitted entry is this reading of the cleaned cell
  in the mapped quantity column.
\<close>

theorem quantity_int_else_float_else_absent:
  "parse_quantity L qt =
     Inr (if qt = [] then None
          else case py_int L qt of
                 Inr n \<Rightarrow> Some (PInt n)
               | Inl e \<Rightarrow> (case py_float L qt of Inr x \<Rightarrow> Some (PFloat x) | Inl e' \<Rightarrow> None))
   \<and> parse_quantity L (str ''2'') = Inr (Some (PInt 2))
   \<and> parse_quantity L [] = Inr None
   \<and> parse_quantity L (str ''N/A'') = Inr None
   \<and> (normalize_row L thr cmap deleted_idxs row = Inr (Some ent) \<longrightarrow>
        Inr (quantity ent) = parse_quantity L (clean_at row (c_quantity cmap)))"
proof (intro conjI impI)
  show "parse_quantity L qt =
     Inr (if qt = [] then None
          else case py_int L qt of
                 Inr n \<Rightarrow> Some (PInt n)
               | Inl e \<Rightarrow> (case py_float L qt of Inr x \<Rightarrow> Some (PFloat x) | Inl e' \<Rightarrow> None))"
    by (rule parse_quantity_cases)
next
  have "str ''2'' \<noteq> []" by (simp add: str_def)
  then show "parse_quantity L (str ''2'') = Inr (Some (PInt 2))"
    by (simp add: parse_quantity_cases int_of_2)
next
  show "parse_quantity L [] = Inr None"
    by (simp add: parse_quantity_def)
next
  have "str ''N/A'' \<noteq> []" by (simp add: str_def)
  then show "parse_quantity L (str ''N/A'') = Inr None"
    by (simp add: parse_quantity_cases int_of_NA float_of_NA)
next
  assume "normalize_row L thr cmap deleted_idxs row = Inr (Some ent)"
  then show "Inr (quantity ent) = parse_quantity L (clean_at row (c_quantity cmap))"
    by (rule normalize_row_SomeD(3) [symmetric])
qed

theorem quantity_int_else_float_else_absent_witness:
  "py_int example_lib (str ''2.5'') = Inl ValueError
   \<and> parse_quantity example_lib (str ''2.5'') = Inr (Some (PFloat (5 / 2)))
   \<and> normalize_row example_lib 3 example_cmap {12} example_row = Inr (Some example_entry)
   \<and> parse_quantity example_lib (clean_at example_row (c_quantity example_cmap))
       = Inr (quantity example_entry)"
proof -
  have i: "py_int example_lib (str ''2.5'') = Inl ValueError"
    by (simp add: py_int_def text_eval)
  have f: "py_float example_lib (str ''2.5'') = Inr (5 / 2)"
    by (simp add: py_float_def float_syntax_def text_eval example_lib_def)
  have ne: "str ''2.5'' \<noteq> []" by (simp add: str_def)
  from quantity_int_else_float_else_absent [of example_lib "str ''2.5''" 3 example_cmap "{12}"
      example_row example_entry] i f ne example_row_entry
  show ?thesis by simp
qed

text \<open>
  C6. Every entry comes from a row whose cleaned first cell is non-empty and matches
  \<open>^\d+(\.\d+)?$\<close>, which for a cleaned cell is the same as being one or two
  non-empty groups of digits separated by a dot; a row whose first cell is empty or is
  not of that form yields no entry. This holds for the row loops of test.py and of
  convert.py, and for the entries of a whole page.
\<close>

theorem emitted_rows_have_dotted_index:
  "(normalize_row L thr cmap deleted row = Inr (Some e) \<longrightarrow>
      (\<exists>c0 rest. row = c0 # rest \<and> clean_cell c0 \<noteq> [] \<and>
         re_match_anchored (ITEM_INDEX_REGEX L) (clean_cell c0) \<and>
         spec_dotted_decimal L (clean_cell c0)))
   \<and> (convert_row L n cm row = Inr (Some ce) \<longrightarrow>
      (\<exists>c0 rest. row = c0 # rest \<and> e_item_no ce = clean_cell c0 \<and> clean_cell c0 \<noteq> [] \<and>
         re_match_anchored (ITEM_INDEX_REGEX L) (clean_cell c0) \<and>
         spec_dotted_decimal L (clean_cell c0)))
   \<and> (clean_cell c1 = [] \<or> \<not> spec_dotted_decimal L (clean_cell c1) \<longrightarrow>
        normalize_row L thr cmap deleted (c1 # cs) = Inr None \<and>
        convert_row L n cm (c1 # cs) = Inr None)
   \<and> (parse_page L pg = Inr es \<longrightarrow> e' \<in> set es \<longrightarrow>
        (\<exists>tbl tbls c0 rest. extract_tables pg = tbl # tbls \<and>
           c0 # rest \<in> set (drop (find_header L tbl + 1) tbl) \<and>
           clean_cell c0 \<noteq> [] \<and> spec_dotted_decimal L (clean_cell c0)))
   \<and> (convert_page L n pg = Inr ces \<longrightarrow> ce' \<in> set ces \<longrightarrow>
        (\<exists>tbl tbls c0 rest. extract_tables pg = tbl # tbls \<and>
           c0 # rest \<in> set (drop (convert_find_header L tbl + 1) tbl) \<and>
           clean_cell c0 \<noteq> [] \<and> spec_dotted_decimal L (clean_cell c0)))"
proof (intro conjI impI)
  assume "normalize_row L thr cmap deleted row = Inr (Some e)"
  from normalize_row_SomeD(1)[OF this]
  show "\<exists>c0 rest. row = c0 # rest \<and> clean_cell c0 \<noteq> [] \<and>
         re_match_anchored (ITEM_INDEX_REGEX L) (clean_cell c0) \<and>
         spec_dotted_decimal L (clean_cell c0)"
    by (auto simp: item_index_match_clean)
next
  assume "convert_row L n cm row = Inr (Some ce)"
  from convert_row_SomeD[OF this]
  show "\<exists>c0 rest. row = c0 # rest \<and> e_item_no ce = clean_cell c0 \<and> clean_cell c0 \<noteq> [] \<and>
         re_match_anchored (ITEM_INDEX_REGEX L) (clean_cell c0) \<and>
         spec_dotted_decimal L (clean_cell c0)"
    by (auto simp: item_index_match_clean)
next
  assume "clean_cell c1 = [] \<or> \<not> spec_dotted_decimal L (clean_cell c1)"
  then have "clean_cell c1 = [] \<or> \<not> re_match_anchored (ITEM_INDEX_REGEX L) (clean_cell c1)"
    by (simp add: item_index_match_clean)
  from bad_index_skipped[OF this]
  show "normalize_row L thr cmap deleted (c1 # cs) = Inr None" by simp
next
  assume "clean_cell c1 = [] \<or> \<not> spec_dotted_decimal L (clean_cell c1)"
  then have "clean_cell c1 = [] \<or> \<not> re_match_anchored (ITEM_INDEX_REGEX L) (clean_cell c1)"
    by (simp add: item_index_match_clean)
  from bad_index_skipped[OF this]
  show "convert_row L n cm (c1 # cs) = Inr None" by simp
next
  assume "parse_page L pg = Inr es" "e' \<in> set es"
  from parse_page_origin[OF this] obtain d tbl tbls r where
    *: "extract_tables pg = tbl # tbls" "r \<in> set (drop (find_header L tbl + 1) tbl)"
       "normalize_row L CUT_THRESHOLD (map_columns L (tbl ! find_header L tbl)) d r = Inr (Some e')"
    by blast
  from normalize_row_SomeD(1)[OF *(3)] obtain c0 rest where
    "r = c0 # rest" "clean_cell c0 \<noteq> []" "spec_dotted_decimal L (clean_cell c0)"
    by (auto simp: item_index_match_clean)
  with * show "\<exists>tbl tbls c0 rest. extract_tables pg = tbl # tbls \<and>
           c0 # rest \<in> set (drop (find_header L tbl + 1) tbl) \<and>
           clean_cell c0 \<noteq> [] \<and> spec_dotted_decimal L (clean_cell c0)"
    by blast
next
  assume "convert_page L n pg = Inr ces" "ce' \<in> set ces"
  from convert_page_origin[OF this] obtain tbl tbls r where
    *: "extract_tables pg = tbl # tbls" "r \<in> set (drop (convert_find_header L tbl + 1) tbl)"
       "convert_row L n (convert_map_columns L (tbl ! convert_find_header L tbl)) r = Inr (Some ce')"
    by blast
  from convert_row_SomeD[OF *(3)] obtain c0 rest where
    "r = c0 # rest" "clean_cell c0 \<noteq> []" "spec_dotted_decimal L (clean_cell c0)"
    by (auto simp: item_index_match_clean)
  with * show "\<exists>tbl tbls c0 rest. extract_tables pg = tbl # tbls \<and>
           c0 # rest \<in> set (drop (convert_find_header L tbl + 1) tbl) \<and>
           clean_cell c0 \<noteq> [] \<and> spec_dotted_decimal L (clean_cell c0)"
    by blast
qed

theorem emitted_rows_have_dotted_index_witness:
  "normalize_row example_lib 3 example_cmap {12} example_row = Inr (Some example_entry)
   \<and> spec_dotted_decimal example_lib (clean_cell (hd example_row))
   \<and> (\<exists>ce. convert_row example_lib 1 example_convert_cmap example_row = Inr (Some ce) \<and>
          e_item_no ce = str ''13'' \<and> spec_dotted_decimal example_lib (e_item_no ce))
   \<and> \<not> spec_dotted_decimal example_lib (clean_cell (Some (str ''1.'')))
   \<and> normalize_row example_lib 3 example_cmap {12} (Some (str ''1.'') # tl example_row)
       = Inr None
   \<and> parse_page example_lib example_page = Inr [example_entry]"
proof -
  have b: "\<not> spec_dotted_decimal example_lib (clean_cell (Some (str ''1.'')))"
    by (simp add: spec_dotted_decimal_def numeric_group_def cell_eval)
  obtain ce where ce: "convert_row example_lib 1 example_convert_cmap example_row = Inr (Some ce)"
    and ci: "e_item_no ce = str ''13''"
    by (simp add: convert_row_def list.case_eq_if example_row_parts)
  note t = emitted_rows_have_dotted_index [where L = example_lib and thr = 3
      and cmap = example_cmap and deleted = "{12}" and row = example_row
      and e = example_entry and ?c1.0 = "Some (str ''1.'')" and cs = "tl example_row"
      and n = 1 and cm = example_convert_cmap and ce = ce]
  from t [THEN conjunct1] example_row_entry
  have "\<exists>c0 rest. example_row = c0 # rest \<and> clean_cell c0 \<noteq> [] \<and>
         re_match_anchored (ITEM_INDEX_REGEX example_lib) (clean_cell c0) \<and>
         spec_dotted_decimal example_lib (clean_cell c0)"
    by (rule mp)
  then obtain c0 rest where
    r: "example_row = c0 # rest" and sd: "spec_dotted_decimal example_lib (clean_cell c0)"
    by blast
  from r have "hd example_row = c0" by (metis list.sel(1))
  with sd have 1: "spec_dotted_decimal example_lib (clean_cell (hd example_row))"
    by simp
  from t [THEN conjunct2, THEN conjunct1] ce
  have "\<exists>c0 rest. example_row = c0 # rest \<and> e_item_no ce = clean_cell c0 \<and>
          clean_cell c0 \<noteq> [] \<and>
          re_match_anchored (ITEM_INDEX_REGEX example_lib) (clean_cell c0) \<and>
          spec_dotted_decimal example_lib (clean_cell c0)"
    by (rule mp)
  then have "spec_dotted_decimal example_lib (e_item_no ce)" by auto
  with ce ci have 2: "\<exists>ce. convert_row example_lib 1 example_convert_cmap example_row
                          = Inr (Some ce) \<and>
          e_item_no ce = str ''13'' \<and> spec_dotted_decimal example_lib (e_item_no ce)"
    by blast
  from t [THEN conjunct2, THEN conjunct2, THEN conjunct1] b
  have 3: "normalize_row example_lib 3 example_cmap {12} (Some (str ''1.'') # tl example_row)
          = Inr None"
    by blast
  from 1 2 3 b example_row_entry example_parse_page show ?thesis by blast
qed

text \<open>
  C7. The revision is the last run of decimal digits of the text of the mapped change
  column, or \<open>0\<close> when the text has no digit: the text \<open>Rev 3 (was 2)\<close> gives \<open>2\<close>.
  That the result is the last run is said by its position: it is a non-empty block of
  digits of the text, no digit follows it, and the character before it, if any, is not
  a digit.
\<close>

theorem revision_is_last_digit_run:
  "revision_of L (str ''Rev 3 (was 2)'') = str ''2''
   \<and> ((\<forall>c\<in>set t. \<not> is_digit L c) \<longrightarrow> revision_of L t = str ''0'')
   \<and> ((\<exists>c\<in>set t. is_digit L c) \<longrightarrow>
        (\<exists>pre post. t = pre @ revision_of L t @ post \<and> revision_of L t \<noteq> [] \<and>
           list_all (is_digit L) (revision_of L t) \<and> (\<forall>c\<in>set post. \<not> is_digit L c) \<and>
           (pre = [] \<or> \<not> is_digit L (last pre))))
   \<and> (normalize_row L thr cmap deleted_idxs row = Inr (Some ent) \<longrightarrow>
        change ent = revision_of L (clean_at row (c_change cmap)))"
proof (intro conjI impI)
  show "revision_of L (str ''Rev 3 (was 2)'') = str ''2''"
    by (simp add: revision_of_def findall_digits_def text_eval)
next
  assume "\<forall>c\<in>set t. \<not> is_digit L c"
  then have "runs (is_digit L) [] t = []" by (simp add: runs_empty_iff)
  then show "revision_of L t = str ''0''" by (simp add: revision_of_def findall_digits_def)
next
  assume "\<exists>c\<in>set t. is_digit L c"
  then have ne: "runs (is_digit L) [] t \<noteq> []" by (simp add: runs_empty_iff)
  then have r: "revision_of L t = last (runs (is_digit L) [] t)"
    by (simp add: revision_of_def findall_digits_def)
  have "list_all (is_digit L) []" by simp
  from runs_last[OF this ne]
  show "\<exists>pre post. t = pre @ revision_of L t @ post \<and> revision_of L t \<noteq> [] \<and>
           list_all (is_digit L) (revision_of L t) \<and> (\<forall>c\<in>set post. \<not> is_digit L c) \<and>
           (pre = [] \<or> \<not> is_digit L (last pre))"
    unfolding r by simp
next
  assume "normalize_row L thr cmap deleted_idxs row = Inr (Some ent)"
  then show "change ent = revision_of L (clean_at row (c_change cmap))"
    by (rule normalize_row_SomeD(2))
qed

theorem revision_is_last_digit_run_witness:
  "(\<exists>c\<in>set (str ''Rev 3 (was 2)''). is_digit example_lib c)
   \<and> normalize_row example_lib 3 example_cmap {12} example_row = Inr (Some example_entry)
   \<and> change example_entry = revision_of example_lib (str ''Rev 3 (was 2)'')
   \<and> revision_of example_lib (str ''Rev 3 (was 2)'') = str ''2''
   \<and> revision_of example_lib (str ''none'') = str ''0''"
proof -
  have d: "\<exists>c\<in>set (str ''Rev 3 (was 2)''). is_digit example_lib c"
    by (simp add: text_eval)
  have n: "\<forall>c\<in>set (str ''none''). \<not> is_digit example_lib c"
    by (simp add: text_eval)
  have c: "clean_at example_row (c_change example_cmap) = str ''Rev 3 (was 2)''"
    by (simp add: example_cmap_def example_row_parts)
  from revision_is_last_digit_run [of example_lib "str ''none''"] n
  have z: "revision_of example_lib (str ''none'') = str ''0''" by blast
  from revision_is_last_digit_run [of example_lib "str ''Rev 3 (was 2)''" 3 example_cmap
      "{12}" example_row example_entry] example_row_entry c d z
  show ?thesis by simp
qed

text \<open>
  C8 as stated fails. In the table below the first row has a cell that starts with
  \<open>level\<close> and a cell that contains \<open>part number\<close>, so the rule of the claim
  chooses row 0; both generations of the parser fall back to row 2.
\<close>

theorem header_row_counterexample:
  "first_index_from 0 (spec_is_header_row example_lib) (take 6 loose_header_table) = Some 0
   \<and> find_header example_lib loose_header_table = 2
   \<and> convert_find_header example_lib loose_header_table = 2"
  by (simp add: spec_is_header_row_def find_header_def is_header_row_def convert_find_header_def
        convert_is_header_row_def loose_header_table_def cell_eval)

text \<open>
  C8, amended. The header row of test.py is the first of the first 6 rows that has a
  cell whose cleaned, lower-cased text starts with \<open>level\<close> and a cell whose cleaned,
  lower-cased text starts with \<open>part number\<close>; convert.py asks for cells that
  contain \<open>level\<close>, \<open>part number\<close> and \<open>qty\<close>. Without such a row the index is
  2. When the table has a row at that index, the data rows are exactly the rows after
  it, in order.
\<close>

theorem header_row_is_first_match:
  "((\<exists>i<length tbl. i < 6 \<and> is_header_row L (tbl ! i)) \<longrightarrow>
       find_header L tbl < length tbl \<and> find_header L tbl < 6 \<and>
       is_header_row L (tbl ! find_header L tbl) \<and>
       (\<forall>j<find_header L tbl. \<not> is_header_row L (tbl ! j)))
   \<and> (\<not> (\<exists>i<length tbl. i < 6 \<and> is_header_row L (tbl ! i)) \<longrightarrow> find_header L tbl = 2)
   \<and> is_header_row L row =
       ((\<exists>c\<in>set row. startswith (py_lower L (clean_cell c)) (str ''level'')) \<and>
        (\<exists>c\<in>set row. startswith (py_lower L (clean_cell c)) (str ''part number'')))
   \<and> (extract_tables pg = tbl # tbls \<longrightarrow> get_deleted_indices L pg = Inr d \<longrightarrow>
        find_header L tbl < length tbl \<longrightarrow>
        parse_page L pg =
          normalize_rows L CUT_THRESHOLD (map_columns L (tbl ! find_header L tbl)) d
            (map (\<lambda>i. tbl ! i) [Suc (find_header L tbl)..<length tbl]))
   \<and> ((\<exists>i<length tbl. i < 6 \<and> convert_is_header_row L (tbl ! i)) \<longrightarrow>
       convert_find_header L tbl < length tbl \<and> convert_find_header L tbl < 6 \<and>
       convert_is_header_row L (tbl ! convert_find_header L tbl) \<and>
       (\<forall>j<convert_find_header L tbl. \<not> convert_is_header_row L (tbl ! j)))
   \<and> (\<not> (\<exists>i<length tbl. i < 6 \<and> convert_is_header_row L (tbl ! i)) \<longrightarrow>
        convert_find_header L tbl = 2)
   \<and> convert_is_header_row L row =
       ((\<exists>c\<in>set row. contains (py_lower L (clean_cell c)) (str ''level'')) \<and>
        (\<exists>c\<in>set row. contains (py_lower L (clean_cell c)) (str ''part number'')) \<and>
        (\<exists>c\<in>set row. contains (py_lower L (clean_cell c)) (str ''qty'')))
   \<and> (extract_tables pg = tbl # tbls \<longrightarrow> convert_find_header L tbl < length tbl \<longrightarrow>
        convert_page L n pg =
          convert_rows L n (convert_map_columns L (tbl ! convert_find_header L tbl))
            (map (\<lambda>i. tbl ! i) [Suc (convert_find_header L tbl)..<length tbl]))"
proof -
  note a = header_index_char[OF find_header_def[of L tbl]]
  note b = header_index_char[OF convert_find_header_def[of L tbl]]
  have c: "is_header_row L row =
       ((\<exists>c\<in>set row. startswith (py_lower L (clean_cell c)) (str ''level'')) \<and>
        (\<exists>c\<in>set row. startswith (py_lower L (clean_cell c)) (str ''part number'')))"
    by (simp add: is_header_row_def list_ex_iff)
  have d: "convert_is_header_row L row =
       ((\<exists>c\<in>set row. contains (py_lower L (clean_cell c)) (str ''level'')) \<and>
        (\<exists>c\<in>set row. contains (py_lower L (clean_cell c)) (str ''part number'')) \<and>
        (\<exists>c\<in>set row. contains (py_lower L (clean_cell c)) (str ''qty'')))"
    by (simp add: convert_is_header_row_def list_ex_iff)
  have e: "extract_tables pg = tbl # tbls \<longrightarrow> get_deleted_indices L pg = Inr d \<longrightarrow>
        find_header L tbl < length tbl \<longrightarrow>
        parse_page L pg =
          normalize_rows L CUT_THRESHOLD (map_columns L (tbl ! find_header L tbl)) d
            (map (\<lambda>i. tbl ! i) [Suc (find_header L tbl)..<length tbl])"
    by (simp add: parse_page_def Let_def drop_rows_after [symmetric])
  have f: "extract_tables pg = tbl # tbls \<longrightarrow> convert_find_header L tbl < length tbl \<longrightarrow>
        convert_page L n pg =
          convert_rows L n (convert_map_columns L (tbl ! convert_find_header L tbl))
            (map (\<lambda>i. tbl ! i) [Suc (convert_find_header L tbl)..<length tbl])"
    by (simp add: convert_page_def Let_def drop_rows_after [symmetric])
  from a b c d e f show ?thesis by blast
qed

theorem header_row_is_first_match_witness:
  "is_header_row example_lib ([example_header, struck_row, example_row] ! 0)
   \<and> find_header example_lib [example_header, struck_row, example_row] = 0
   \<and> convert_is_header_row example_lib ([example_header, struck_row, example_row] ! 0)
   \<and> convert_find_header example_lib [example_header, struck_row, example_row] = 0
   \<and> \<not> (\<exists>i<length loose_header_table. i < 6 \<and> is_header_row example_lib (loose_header_table ! i))
   \<and> find_header example_lib loose_header_table = 2
   \<and> \<not> (\<exists>i<length loose_header_table. i < 6 \<and>
            convert_is_header_row example_lib (loose_header_table ! i))
   \<and> convert_find_header example_lib loose_header_table = 2
   \<and> parse_page example_lib example_page =
       normalize_rows example_lib CUT_THRESHOLD example_cmap {12} [struck_row, example_row]"
proof -
  let ?tbl = "[example_header, struck_row, example_row]"
  note t = header_row_is_first_match [where L = example_lib and tbl = ?tbl
      and pg = example_page and tbls = "[]" and d = "{12}"]
  note u = header_row_is_first_match [where L = example_lib and tbl = loose_header_table]
  have a1: "is_header_row example_lib (?tbl ! 0)"
    by (simp add: example_is_header)
  have b1: "convert_is_header_row example_lib (?tbl ! 0)"
    by (simp add: convert_is_header_row_def example_header_def cell_eval)
  have "\<forall>r\<in>set loose_header_table. \<not> is_header_row example_lib r"
    by (simp add: loose_header_table_def is_header_row_def cell_eval)
  then have a2: "\<not> (\<exists>i<length loose_header_table. i < 6 \<and>
                    is_header_row example_lib (loose_header_table ! i))"
    by auto
  have "\<forall>r\<in>set loose_header_table. \<not> convert_is_header_row example_lib r"
    by (simp add: loose_header_table_def convert_is_header_row_def cell_eval)
  then have b2: "\<not> (\<exists>i<length loose_header_table. i < 6 \<and>
                    convert_is_header_row example_lib (loose_header_table ! i))"
    by auto
  from a1 have a3: "\<exists>i<length ?tbl. i < 6 \<and> is_header_row example_lib (?tbl ! i)"
    by (intro exI[of _ 0]) simp
  from b1 have b3: "\<exists>i<length ?tbl. i < 6 \<and> convert_is_header_row example_lib (?tbl ! i)"
    by (intro exI[of _ 0]) simp
  from t a3 have "\<forall>j<find_header example_lib ?tbl. \<not> is_header_row example_lib (?tbl ! j)"
    by blast
  with a1 have a4: "find_header example_lib ?tbl = 0"
    by (cases "find_header example_lib ?tbl") auto
  from t b3
  have "\<forall>j<convert_find_header example_lib ?tbl. \<not> convert_is_header_row example_lib (?tbl ! j)"
    by blast
  with b1 have b4: "convert_find_header example_lib ?tbl = 0"
    by (cases "convert_find_header example_lib ?tbl") auto
  from u a2 have a5: "find_header example_lib loose_header_table = 2" by blast
  from u b2 have b5: "convert_find_header example_lib loose_header_table = 2" by blast
  have e: "extract_tables example_page = ?tbl # []" by (simp add: example_page_def)
  have r: "map (\<lambda>i. ?tbl ! i) [Suc 0..<length ?tbl] = [struck_row, example_row]"
    by (simp add: upt_rec)
  from t e example_deleted [of example_lib] a4
  have "parse_page example_lib example_page =
          normalize_rows example_lib CUT_THRESHOLD
            (map_columns example_lib (?tbl ! find_header example_lib ?tbl)) {12}
            (map (\<lambda>i. ?tbl ! i) [Suc (find_header example_lib ?tbl)..<length ?tbl])"
    by simp
  then have a6: "parse_page example_lib example_page =
       normalize_rows example_lib CUT_THRESHOLD example_cmap {12} [struck_row, example_row]"
    unfolding a4 r by (simp add: example_map_columns)
  from a1 b1 a2 b2 a4 b4 a5 b5 a6 show ?thesis by blast
qed

text \<open>
  C9. Sighting an entry without a quantity leaves every quantity vector as it was:
  the part under the entry's key is the one that was there, or, on first sight, the
  entry with an all-absent vector, and no other key changes. So a key whose sightings
  inside a variant all lack a quantity ends with that variant's slot absent.
\<close>

theorem absent_quantity_changes_nothing:
  "(quantity r = None \<longrightarrow> vi < n \<longrightarrow> wf_state n st \<longrightarrow>
      (\<exists>st'. sight L n vi r st = Inr st' \<and>
         parts st' = (parts st)(make_key r vi (seq_counter st) \<mapsto>
           (case parts st (make_key r vi (seq_counter st)) of
              None \<Rightarrow> entry.extend r \<lparr>qtys = replicate n None\<rparr>
            | Some m \<Rightarrow> m))))
   \<and> (build_parts L sheets = Inr st2 \<longrightarrow> parts st2 key = Some m2 \<longrightarrow> v < length sheets \<longrightarrow>
        list_all (\<lambda>q. q = None) (sightings sheets key v) \<longrightarrow> qtys m2 ! v = None)"
proof (intro conjI impI)
  assume "quantity r = None" "vi < n" "wf_state n st"
  then show "\<exists>st'. sight L n vi r st = Inr st' \<and>
         parts st' = (parts st)(make_key r vi (seq_counter st) \<mapsto>
           (case parts st (make_key r vi (seq_counter st)) of
              None \<Rightarrow> entry.extend r \<lparr>qtys = replicate n None\<rparr>
            | Some m \<Rightarrow> m))"
    by (rule sight_absent)
next
  assume b: "build_parts L sheets = Inr st2" and p: "parts st2 key = Some m2"
    and v: "v < length sheets" and a: "list_all (\<lambda>q. q = None) (sightings sheets key v)"
  from running_absent[OF a, of L None]
  have "running_total L (sightings sheets key v) = Inr None" by (simp add: running_total_def)
  with build_parts_slots(3)[OF b v, of key] p show "qtys m2 ! v = None"
    by (simp add: slot_of_def)
qed

theorem absent_quantity_changes_nothing_witness:
  "(\<exists>st'. sight example_lib 2 0 (top_entry ''lhd'' None)
            \<lparr>parts = Map.empty, initial_order = [], seq_counter = 0\<rparr> = Inr st' \<and>
          map_option qtys (parts st' (str ''7009@@n=lhd'')) = Some [None, None])
   \<and> (\<exists>st m. build_parts example_lib example_sheets = Inr st \<and>
          parts st (str ''7009@@n=lhd'') = Some m \<and>
          sightings example_sheets (str ''7009@@n=lhd'') 0 = [None] \<and>
          qtys m ! 0 = None)"
proof -
  let ?st0 = "\<lparr>parts = Map.empty, initial_order = [], seq_counter = 0\<rparr> :: rat rstate"
  let ?r = "top_entry ''lhd'' None :: rat entry"
  have "quantity ?r = None" "(0::nat) < 2" "wf_state 2 ?st0"
    by (simp_all add: example_entries wf_state_def)
  with absent_quantity_changes_nothing [where r = ?r and vi = 0 and n = 2 and st = ?st0
      and L = example_lib]
  obtain st' where st': "sight example_lib 2 0 ?r ?st0 = Inr st'"
    and p: "parts st' = (parts ?st0)(make_key ?r 0 (seq_counter ?st0) \<mapsto>
           (case parts ?st0 (make_key ?r 0 (seq_counter ?st0)) of
              None \<Rightarrow> entry.extend ?r \<lparr>qtys = replicate 2 None\<rparr>
            | Some m \<Rightarrow> m))"
    by blast
  from p have "map_option qtys (parts st' (str ''7009@@n=lhd'')) = Some [None, None]"
    by (simp add: example_keys example_key_strings numeral_2_eq_2)
  with st' have 1: "\<exists>st'. sight example_lib 2 0 ?r ?st0 = Inr st' \<and>
          map_option qtys (parts st' (str ''7009@@n=lhd'')) = Some [None, None]"
    by blast
  from example_build obtain st where st: "build_parts example_lib example_sheets = Inr st" ..
  have l: "(0::nat) < length example_sheets" by (simp add: example_sheets_def)
  have "str ''7009@@n=lhd'' \<in> (\<lambda>(v, s, r). make_key r v s) ` set (numbered 0 0 example_sheets)"
    by (simp add: example_numbered example_keys example_key_strings)
  then have "str ''7009@@n=lhd'' \<in> dom (parts st)"
    by (simp only: build_parts_slots(2)[OF st l])
  then obtain m where m: "parts st (str ''7009@@n=lhd'') = Some m" by auto
  from absent_quantity_changes_nothing [of _ _ _ _ example_lib example_sheets st
      "str ''7009@@n=lhd''" m 0] st m l
  have "qtys m ! 0 = None"
    by (simp add: example_sightings)
  with st m have 2: "\<exists>st m. build_parts example_lib example_sheets = Inr st \<and>
          parts st (str ''7009@@n=lhd'') = Some m \<and>
          sightings example_sheets (str ''7009@@n=lhd'') 0 = [None] \<and>
          qtys m ! 0 = None"
    by (auto simp: example_sightings)
  from 1 2 show ?thesis by blast
qed

text \<open>
  C10. The metadata scan commits to the first anchor line. When no line before it
  exists, or the line before it has fewer than two tokens, both identifiers are empty,
  whatever follows, so also when a later anchor line has a well-formed line before it.
  test.py and multi.py have the same function.
\<close>

theorem metadata_commits_to_first_anchor:
  assumes "\<forall>l\<in>set pre. \<not> is_anchor L l" and "is_anchor L a"
    and "pre = [] \<or> length (py_split (last pre)) < 2"
  shows "scan_lines L None (pre @ a # rest) = ([], [])
         \<and> (stripped_lines (concat (map (\<lambda>pg. case extract_text pg of None \<Rightarrow> [] | Some t \<Rightarrow> t)
                pages)) = pre @ a # rest \<longrightarrow> parse_pdf_metadata L pages = ([], []))"
proof -
  have "scan_lines L None (pre @ a # rest) = ([], [])"
  proof (cases "pre = []")
    case True
    with assms(2) show ?thesis by simp
  next
    case False
    with assms(3) have "length (py_split (last pre)) < 2" by simp
    with False assms(1,2) show ?thesis
      by (simp add: scan_lines_skip short_split)
  qed
  then show ?thesis by (simp add: parse_pdf_metadata_def)
qed

theorem metadata_commits_to_first_anchor_witness:
  "is_anchor example_lib (str ''PRODUCT NUMBER / CUSTOMER'')
   \<and> length (py_split (str ''P1 C1'')) = 2
   \<and> parse_pdf_metadata example_lib [example_page] = ([], [])"
proof -
  have t: "concat (map (\<lambda>pg. case extract_text pg of None \<Rightarrow> [] | Some t \<Rightarrow> t) [example_page])
           = str ''X'' @ [10] @ str ''PRODUCT NUMBER CUSTOMER'' @ [10] @
                           str ''P1 C1'' @ [10] @ str ''PRODUCT NUMBER / CUSTOMER''"
    by (simp add: example_page_def)
  have p: "\<forall>l\<in>set [str ''X'']. \<not> is_anchor example_lib l" by (simp add: example_anchors)
  have s: "[str ''X''] = [] \<or> length (py_split (last [str ''X''])) < 2"
    by (simp add: example_tokens)
  from metadata_commits_to_first_anchor [OF p example_anchors(1) s,
      of "[str ''P1 C1'', str ''PRODUCT NUMBER / CUSTOMER'']" "[example_page]"]
  have "parse_pdf_metadata example_lib [example_page] = ([], [])"
    unfolding t example_text_lines by blast
  then show ?thesis by (simp add: example_anchors example_tokens)
qed

end
